theory Spec2Isabelle
  imports Main "HOL-Library.Char_ord" "HOL-Library.List_Lexorder"
begin

section \<open>Python strings\<close>

text \<open>
  Python \<^verbatim>\<open>str\<close> values are modelled as \<^typ>\<open>string\<close>. The model covers ASCII text:
  the whitespace class is the ASCII part of \<^verbatim>\<open>str.isspace\<close> (which is also what the
  \<^verbatim>\<open>\s\<close> of \<^verbatim>\<open>re\<close> matches on ASCII input), and case folding is ASCII case folding.
\<close>

definition isspace :: "char \<Rightarrow> bool" where
  "isspace c \<longleftrightarrow> c \<in> set [CHR 0x09, CHR 0x0A, CHR 0x0B, CHR 0x0C, CHR 0x0D,
                         CHR 0x1C, CHR 0x1D, CHR 0x1E, CHR 0x1F, CHR '' '']"

definition lower_char :: "char \<Rightarrow> char" where
  "lower_char c =
     (case map_of (zip ''ABCDEFGHIJKLMNOPQRSTUVWXYZ'' ''abcdefghijklmnopqrstuvwxyz'') c of
        Some d \<Rightarrow> d
      | None \<Rightarrow> c)"

definition lower :: "string \<Rightarrow> string" where
  "lower s = map lower_char s"

text \<open>\<^verbatim>\<open>s.strip()\<close>\<close>

definition strip :: "string \<Rightarrow> string" where
  "strip s = rev (dropWhile isspace (rev (dropWhile isspace s)))"

text \<open>\<^verbatim>\<open>s.startswith(p)\<close>\<close>

definition startswith :: "string \<Rightarrow> string \<Rightarrow> bool" where
  "startswith s p \<longleftrightarrow> take (length p) s = p"

text \<open>\<^verbatim>\<open>p in s\<close> for strings: \<^verbatim>\<open>p\<close> occurs in \<^verbatim>\<open>s\<close> at some position.\<close>

fun contains :: "string \<Rightarrow> string \<Rightarrow> bool" where
  "contains [] p = (p = [])"
| "contains (c # cs) p = (startswith (c # cs) p \<or> contains cs p)"

text \<open>\<^verbatim>\<open>body.split("\n")\<close>: one more piece than there are newlines.\<close>

fun split_nl :: "string \<Rightarrow> string list" where
  "split_nl [] = [[]]"
| "split_nl (c # cs) =
     (if c = CHR 0x0A then [] # split_nl cs
      else (case split_nl cs of
              l # ls \<Rightarrow> (c # l) # ls
            | [] \<Rightarrow> [[c]]))"

text \<open>\<^verbatim>\<open>sep.join(xs)\<close>\<close>

fun join :: "string \<Rightarrow> string list \<Rightarrow> string" where
  "join sep [] = []"
| "join sep [x] = x"
| "join sep (x # y # ys) = x @ sep @ join sep (y # ys)"

text \<open>
  \<^verbatim>\<open>s.replace(old, new)\<close> for a non-empty \<^verbatim>\<open>old\<close>: occurrences are replaced from the
  left, without overlap. The counter is the number of characters of the current
  occurrence that are still to be skipped.
\<close>

fun replace_from :: "string \<Rightarrow> string \<Rightarrow> nat \<Rightarrow> string \<Rightarrow> string" where
  "replace_from old new k [] = []"
| "replace_from old new (Suc k) (c # cs) = replace_from old new k cs"
| "replace_from old new 0 (c # cs) =
     (if startswith (c # cs) old then new @ replace_from old new (length old - 1) cs
      else c # replace_from old new 0 cs)"

definition replace :: "string \<Rightarrow> string \<Rightarrow> string \<Rightarrow> string" where
  "replace s old new = replace_from old new 0 s"

text \<open>Python's \<^verbatim>\<open>a or b\<close> on values that are \<^verbatim>\<open>None\<close> or a string.\<close>

definition truthy :: "string option \<Rightarrow> bool" where
  "truthy v \<longleftrightarrow> (case v of None \<Rightarrow> False | Some s \<Rightarrow> s \<noteq> [])"

definition py_or :: "string option \<Rightarrow> string option \<Rightarrow> string option" where
  "py_or a b = (if truthy a then a else b)"


section \<open>fetch\_issue.py\<close>

subsection \<open>Criteria parser\<close>

record criterion =
  checked :: bool
  item_text :: string

text \<open>\<^verbatim>\<open>re.search(r'acceptance criteria', line, re.IGNORECASE)\<close>\<close>

definition is_criteria_header :: "string \<Rightarrow> bool" where
  "is_criteria_header line \<longleftrightarrow> contains (lower line) ''acceptance criteria''"

text \<open>
  \<^verbatim>\<open>re.match(r'^\s*-\s*\[([ xX])\]\s*(.+)$', line)\<close> on a line without a newline,
  giving the two groups. The first two \<^verbatim>\<open>\s*\<close> are followed by a character that is not
  whitespace, so they take all the whitespace there is. The third one gives its last
  character back to \<^verbatim>\<open>(.+)\<close> when only whitespace follows the bracket.
\<close>

definition checkbox_match :: "string \<Rightarrow> (char \<times> string) option" where
  "checkbox_match line =
     (case dropWhile isspace line of
        d # r1 \<Rightarrow>
          (if d = CHR ''-'' then
             (case dropWhile isspace r1 of
                b # m # e # rest \<Rightarrow>
                  (if b = CHR ''['' \<and> m \<in> set [CHR '' '', CHR ''x'', CHR ''X'']
                      \<and> e = CHR '']'' \<and> rest \<noteq> []
                   then Some (m, if dropWhile isspace rest = [] then [last rest]
                                 else dropWhile isspace rest)
                   else None)
              | _ \<Rightarrow> None)
           else None)
      | [] \<Rightarrow> None)"

text \<open>
  The loop of \<^verbatim>\<open>parse_acceptance_criteria\<close> over the remaining lines, with the two
  variables it updates: \<^verbatim>\<open>in_criteria_section\<close> and \<^verbatim>\<open>criteria\<close>. \<^verbatim>\<open>break\<close> returns the
  criteria collected so far.
\<close>

fun criteria_loop :: "string list \<Rightarrow> bool \<Rightarrow> criterion list \<Rightarrow> criterion list" where
  "criteria_loop [] in_criteria_section criteria = criteria"
| "criteria_loop (line # lines) in_criteria_section criteria =
     (if is_criteria_header line then criteria_loop lines True criteria
      else if in_criteria_section then
        (case checkbox_match line of
           Some (m, t) \<Rightarrow>
             criteria_loop lines in_criteria_section
               (criteria @ [\<lparr>checked = (lower_char m = CHR ''x''), item_text = strip t\<rparr>])
         | None \<Rightarrow>
             if strip line = [] then criteria_loop lines in_criteria_section criteria
             else if startswith line ''#'' then criteria
             else criteria_loop lines in_criteria_section criteria)
      else criteria_loop lines in_criteria_section criteria)"

definition parse_acceptance_criteria :: "string \<Rightarrow> criterion list" where
  "parse_acceptance_criteria body =
     (if body = [] then [] else criteria_loop (split_nl body) False [])"

subsection \<open>Label codec\<close>

text \<open>
  A label is a JSON object with string fields; \<^verbatim>\<open>label.get("name", "")\<close> reads the
  name, with the empty string for an object without one.
\<close>

type_synonym label = "string \<rightharpoonup> string"

definition label_name :: "label \<Rightarrow> string" where
  "label_name l = (case l ''name'' of None \<Rightarrow> [] | Some n \<Rightarrow> n)"

fun extract_label :: "label list \<Rightarrow> string \<Rightarrow> string option" where
  "extract_label [] prefix = None"
| "extract_label (l # labels) prefix =
     (if startswith (label_name l) prefix then Some (drop (length prefix) (label_name l))
      else extract_label labels prefix)"

subsection \<open>Issue projector: validation\<close>

text \<open>The dictionary built by \<^verbatim>\<open>fetch_issue\<close>.\<close>

record issue =
  iss_number :: int
  iss_title :: string
  iss_body :: string
  iss_acceptance_criteria :: "criterion list"
  iss_epic :: "string option"
  iss_priority :: "string option"
  iss_status :: "string option"
  iss_type :: "string option"
  iss_assignees :: "string list"
  iss_milestone :: "string option"
  iss_state :: string
  iss_url :: string

text \<open>
  The warnings of \<^verbatim>\<open>validate_issue\<close>, one constructor for each message:
  "Issue is closed", "Already assigned to: ..." with the joined assignees,
  "No acceptance criteria found in issue body", "No epic label found",
  "No priority label found".
\<close>

datatype warning =
  IssueIsClosed
  | AlreadyAssignedTo string
  | NoAcceptanceCriteria
  | NoEpicLabel
  | NoPriorityLabel

definition validate_issue :: "issue \<Rightarrow> bool \<times> warning list" where
  "validate_issue i =
     (let w1 = (if iss_state i = ''CLOSED'' then [IssueIsClosed] else []);
          w2 = (if iss_assignees i \<noteq> [] then w1 @ [AlreadyAssignedTo (join '', '' (iss_assignees i))]
                else w1);
          w3 = (if iss_acceptance_criteria i = [] then w2 @ [NoAcceptanceCriteria] else w2);
          w4 = (if \<not> truthy (iss_epic i) then w3 @ [NoEpicLabel] else w3);
          w5 = (if \<not> truthy (iss_priority i) then w4 @ [NoPriorityLabel] else w4);
          is_valid = (iss_state i = ''OPEN'')
      in (is_valid, w5))"


section \<open>External commands\<close>

text \<open>
  Every script reaches the tracker and the board through \<^verbatim>\<open>subprocess.run\<close> with
  \<^verbatim>\<open>check=True\<close>, followed by \<^verbatim>\<open>json.loads\<close> and subscripting of the decoded value.
  A response is therefore either the decoded payload or the exception raised on the way.
  The scripts treat \<^verbatim>\<open>CalledProcessError\<close> and \<^verbatim>\<open>JSONDecodeError\<close> by name;
  \<open>OtherException\<close> stands for any other subclass of \<^verbatim>\<open>Exception\<close>
  (\<^verbatim>\<open>OSError\<close>, \<^verbatim>\<open>KeyError\<close>, \<^verbatim>\<open>TypeError\<close>).
  Responses are functions of the arguments of the call.
\<close>

datatype py_error =
  CalledProcessError string
  | JSONDecodeError string
  | OtherException string


section \<open>select\_issue.py\<close>

definition PRIORITY_ORDER :: "string list" where
  "PRIORITY_ORDER = [''critical'', ''high'', ''medium'', ''low'']"

text \<open>
  An element of the output of \<^verbatim>\<open>gh issue list --json number,title,createdAt,labels,assignees\<close>,
  with the names of its labels and the logins of its assignees.
\<close>

record listed_issue =
  li_number :: int
  li_title :: string
  li_createdAt :: string
  li_labels :: "string list"
  li_assignees :: "string list"

text \<open>The tracker answers a \<^verbatim>\<open>gh issue list\<close> command line.\<close>

type_synonym tracker = "string list \<Rightarrow> py_error + listed_issue list"

text \<open>The lines written to the diagnostic stream, one constructor for each message.\<close>

datatype diagnostic =
  ErrorQueryingIssues string
  | ErrorParsingIssueList string
  | SelectedIssue int string
  | PriorityLine string
  | CreatedLine string
  | AssignedToLine string
  | EmptyLine
  | NoIssuesFoundMatching string
  | Traceback py_error

text \<open>What a run has done so far: the commands it ran and the lines it printed.\<close>

record sel_io =
  commands :: "string list list"
  stderr :: "diagnostic list"
  stdout :: "int list"

definition issue_list_cmd :: "string \<Rightarrow> string option \<Rightarrow> string \<Rightarrow> string option \<Rightarrow> string option \<Rightarrow> string list" where
  "issue_list_cmd priority epic_filter status owner repo =
     (let labels = [''priority:'' @ priority, ''status:'' @ status] @
                   (case epic_filter of
                      Some e \<Rightarrow> if e \<noteq> [] then [''epic:'' @ e] else []
                    | None \<Rightarrow> [])
      in [''gh'', ''issue'', ''list'', ''--state'', ''open''] @
         (case (owner, repo) of
            (Some ow, Some re) \<Rightarrow> if ow \<noteq> [] \<and> re \<noteq> [] then [''--repo'', ow @ ''/'' @ re] else []
          | _ \<Rightarrow> []) @
         concat (map (\<lambda>label. [''--label'', label]) labels) @
         [''--json'', ''number,title,createdAt,labels,assignees'',
          ''--jq'', ''sort_by(.createdAt)''])"

text \<open>
  \<^verbatim>\<open>select_next_issue\<close>: the two exceptions it names are reported and turned into
  \<^verbatim>\<open>None\<close>; any other exception leaves the function.
\<close>

definition select_next_issue ::
  "tracker \<Rightarrow> string \<Rightarrow> string option \<Rightarrow> string \<Rightarrow> string option \<Rightarrow> string option \<Rightarrow> sel_io
     \<Rightarrow> (py_error + listed_issue option) \<times> sel_io" where
  "select_next_issue gh priority epic_filter status owner repo io =
     (let cmd = issue_list_cmd priority epic_filter status owner repo;
          io1 = io\<lparr>commands := commands io @ [cmd]\<rparr>
      in case gh cmd of
           Inl (CalledProcessError m) \<Rightarrow>
             (Inr None, io1\<lparr>stderr := stderr io1 @ [ErrorQueryingIssues m]\<rparr>)
         | Inl (JSONDecodeError m) \<Rightarrow>
             (Inr None, io1\<lparr>stderr := stderr io1 @ [ErrorParsingIssueList m]\<rparr>)
         | Inl (OtherException m) \<Rightarrow> (Inl (OtherException m), io1)
         | Inr issues \<Rightarrow>
             (case issues of
                [] \<Rightarrow> (Inr None, io1)
              | i # _ \<Rightarrow> (Inr (Some i), io1)))"

text \<open>
  The loop of \<^verbatim>\<open>select_with_fallback\<close> over the priorities still to try. An issue
  object of the tracker has fields, so \<^verbatim>\<open>if issue\<close> holds exactly when one was returned.
\<close>

fun fallback_loop ::
  "tracker \<Rightarrow> string list \<Rightarrow> string option \<Rightarrow> string \<Rightarrow> string option \<Rightarrow> string option \<Rightarrow> sel_io
     \<Rightarrow> (py_error + listed_issue option) \<times> sel_io" where
  "fallback_loop gh [] epic_filter status owner repo io = (Inr None, io)"
| "fallback_loop gh (p # ps) epic_filter status owner repo io =
     (case select_next_issue gh p epic_filter status owner repo io of
        (Inl e, io') \<Rightarrow> (Inl e, io')
      | (Inr (Some i), io') \<Rightarrow> (Inr (Some i), io')
      | (Inr None, io') \<Rightarrow> fallback_loop gh ps epic_filter status owner repo io')"

definition select_with_fallback ::
  "tracker \<Rightarrow> string option \<Rightarrow> string \<Rightarrow> string option \<Rightarrow> string option \<Rightarrow> sel_io
     \<Rightarrow> (py_error + listed_issue option) \<times> sel_io" where
  "select_with_fallback gh epic_filter status owner repo io =
     fallback_loop gh PRIORITY_ORDER epic_filter status owner repo io"

text \<open>The parsed command line; \<^verbatim>\<open>--status\<close> has the default \<^verbatim>\<open>backlog\<close>.\<close>

record sel_args =
  arg_priority :: "string option"
  arg_epic :: "string option"
  arg_status :: string
  arg_owner :: "string option"
  arg_repo :: "string option"

text \<open>
  \<^verbatim>\<open>main\<close> after \<^verbatim>\<open>parse_args\<close>, giving the exit status of the process and what it ran
  and printed. An exception that nothing catches ends the interpreter with a traceback
  and exit status 1.
\<close>

definition select_main :: "tracker \<Rightarrow> sel_args \<Rightarrow> int \<times> sel_io" where
  "select_main gh args =
     (let io0 = \<lparr>commands = [], stderr = [], stdout = []\<rparr>;
          (r, io1) =
            (case arg_priority args of
               Some p \<Rightarrow>
                 if p \<noteq> [] then
                   select_next_issue gh p (arg_epic args) (arg_status args)
                     (arg_owner args) (arg_repo args) io0
                 else
                   select_with_fallback gh (arg_epic args) (arg_status args)
                     (arg_owner args) (arg_repo args) io0
             | None \<Rightarrow>
                 select_with_fallback gh (arg_epic args) (arg_status args)
                   (arg_owner args) (arg_repo args) io0)
      in case r of
           Inl e \<Rightarrow> (1, io1\<lparr>stderr := stderr io1 @ [Traceback e]\<rparr>)
         | Inr (Some issue) \<Rightarrow>
             (let priority_label = find (\<lambda>n. startswith n ''priority:'') (li_labels issue);
                  priority = (case priority_label of
                                Some pl \<Rightarrow> if pl \<noteq> [] then replace pl ''priority:'' [] else ''unknown''
                              | None \<Rightarrow> ''unknown'');
                  lines = [SelectedIssue (li_number issue) (li_title issue),
                           PriorityLine priority, CreatedLine (li_createdAt issue)] @
                          (if li_assignees issue \<noteq> []
                           then [AssignedToLine (join '', '' (li_assignees issue))] else []) @
                          [EmptyLine]
              in (0, io1\<lparr>stderr := stderr io1 @ lines, stdout := stdout io1 @ [li_number issue]\<rparr>))
         | Inr None \<Rightarrow>
             (let filters =
                    (case arg_priority args of
                       Some p \<Rightarrow> if p \<noteq> [] then [''priority:'' @ p] else []
                     | None \<Rightarrow> []) @
                    (case arg_epic args of
                       Some e \<Rightarrow> if e \<noteq> [] then [''epic:'' @ e] else []
                     | None \<Rightarrow> []) @
                    [''status:'' @ arg_status args]
              in (1, io1\<lparr>stderr := stderr io1 @ [NoIssuesFoundMatching (join '', '' filters)]\<rparr>)))"


section \<open>update\_status.py\<close>

text \<open>
  A node of the field list of a project: a single-select field with its options
  (name and identifier of each). Any other field arrives as an empty object, \<open>None\<close> here.
\<close>

record status_field =
  field_id :: string
  field_name :: string
  field_options :: "(string \<times> string) list"

text \<open>
  The board and the tracker as the script sees them: the label names of an issue, the
  project items of an issue (identifier and number of the project), the field update,
  and the fields of a project.
\<close>

record board =
  gh_issue_view_labels :: "int \<Rightarrow> py_error + string list"
  gh_project_items :: "string \<Rightarrow> string \<Rightarrow> int \<Rightarrow> py_error + (string \<times> int) list"
  gh_update_field :: "string \<Rightarrow> string \<Rightarrow> string \<Rightarrow> string \<Rightarrow> py_error + unit"
  gh_project_fields :: "string \<Rightarrow> py_error + status_field option list"

definition get_issue_labels :: "board \<Rightarrow> int \<Rightarrow> py_error + string list" where
  "get_issue_labels gh issue_number = gh_issue_view_labels gh issue_number"

fun first_item :: "(string \<times> int) list \<Rightarrow> int \<Rightarrow> string option" where
  "first_item [] project_number = None"
| "first_item ((item_id, n) # nodes) project_number =
     (if n = project_number then Some item_id else first_item nodes project_number)"

definition get_project_item_id ::
  "board \<Rightarrow> int \<Rightarrow> int \<Rightarrow> string \<Rightarrow> string \<Rightarrow> py_error + string option" where
  "get_project_item_id gh issue_number project_number owner repo =
     (case gh_project_items gh owner repo issue_number of
        Inl e \<Rightarrow> Inl e
      | Inr nodes \<Rightarrow> Inr (first_item nodes project_number))"

definition update_issue_status ::
  "board \<Rightarrow> string \<Rightarrow> string \<Rightarrow> string \<Rightarrow> string \<Rightarrow> py_error + unit" where
  "update_issue_status gh item_id project_id fid option_id =
     gh_update_field gh item_id project_id fid option_id"

fun first_status_field :: "status_field option list \<Rightarrow> status_field option" where
  "first_status_field [] = None"
| "first_status_field (None # nodes) = first_status_field nodes"
| "first_status_field (Some f # nodes) =
     (if field_name f = ''Status'' then Some f else first_status_field nodes)"

definition get_status_field_info :: "board \<Rightarrow> string \<Rightarrow> py_error + status_field option" where
  "get_status_field_info gh project_id =
     (case gh_project_fields gh project_id of
        Inl e \<Rightarrow> Inl e
      | Inr nodes \<Rightarrow> Inr (first_status_field nodes))"

text \<open>The dictionary comprehension over the options: a later option of the same name wins.\<close>

fun option_map_of :: "(string \<times> string) list \<Rightarrow> (string \<rightharpoonup> string) \<Rightarrow> (string \<rightharpoonup> string)" where
  "option_map_of [] m = m"
| "option_map_of ((name, oid) # opts) m = option_map_of opts (m(name \<mapsto> oid))"

text \<open>The table \<^verbatim>\<open>LABEL_TO_STATUS\<close>, in the order of its keys.\<close>

definition LABEL_TO_STATUS :: "(string \<rightharpoonup> string) \<Rightarrow> (string \<times> string option) list" where
  "LABEL_TO_STATUS option_map =
     [(''status:backlog'', py_or (option_map ''Todo'') (option_map ''Backlog'')),
      (''status:in-progress'', py_or (option_map ''In Progress'') (option_map ''In progress'')),
      (''status:done'', option_map ''Done'')]"

text \<open>The parsed command line.\<close>

record upd_args =
  PROJECT_ID :: string
  PROJECT_NUMBER :: int
  OWNER :: string
  REPO :: string
  START_ISSUE :: int
  END_ISSUE :: int

text \<open>The external calls of the loop, with their arguments.\<close>

datatype gh_call =
  IssueViewLabels int
  | ProjectItems string string int
  | UpdateField string string string string

text \<open>The three counters of the loop, and the external calls made so far.\<close>

record run_state =
  updated :: int
  skipped :: int
  errors :: int
  calls :: "gh_call list"

text \<open>
  One iteration of the loop: the body of the \<^verbatim>\<open>try\<close>, with \<^verbatim>\<open>except Exception\<close> on every
  call that can raise. \<^verbatim>\<open>continue\<close> ends the iteration. The printed lines and the
  pause after an update are left out.
\<close>

definition loop_body ::
  "upd_args \<Rightarrow> string \<Rightarrow> (string \<times> string option) list \<Rightarrow> board \<Rightarrow> int \<Rightarrow> run_state \<Rightarrow> run_state" where
  "loop_body a STATUS_FIELD_ID label_to_status gh issue_number s =
     (let s1 = s\<lparr>calls := calls s @ [IssueViewLabels issue_number]\<rparr>
      in case get_issue_labels gh issue_number of
           Inl e \<Rightarrow> s1\<lparr>errors := errors s1 + 1\<rparr>
         | Inr labels \<Rightarrow>
             (case find (\<lambda>label. map_of label_to_status label \<noteq> None) labels of
                None \<Rightarrow> s1\<lparr>skipped := skipped s1 + 1\<rparr>
              | Some status_label \<Rightarrow>
                  if status_label = [] then s1\<lparr>skipped := skipped s1 + 1\<rparr>
                  else
                    (let s2 = s1\<lparr>calls := calls s1 @ [ProjectItems (OWNER a) (REPO a) issue_number]\<rparr>
                     in case get_project_item_id gh issue_number (PROJECT_NUMBER a) (OWNER a) (REPO a) of
                          Inl e \<Rightarrow> s2\<lparr>errors := errors s2 + 1\<rparr>
                        | Inr None \<Rightarrow> s2\<lparr>errors := errors s2 + 1\<rparr>
                        | Inr (Some item_id) \<Rightarrow>
                            if item_id = [] then s2\<lparr>errors := errors s2 + 1\<rparr>
                            else
                              (case map_of label_to_status status_label of
                                 None \<Rightarrow> s2\<lparr>errors := errors s2 + 1\<rparr>
                               | Some None \<Rightarrow> s2\<lparr>errors := errors s2 + 1\<rparr>
                               | Some (Some option_id) \<Rightarrow>
                                   if option_id = [] then s2\<lparr>errors := errors s2 + 1\<rparr>
                                   else
                                     (let s3 = s2\<lparr>calls := calls s2 @
                                                 [UpdateField item_id (PROJECT_ID a) STATUS_FIELD_ID option_id]\<rparr>
                                      in case update_issue_status gh item_id (PROJECT_ID a)
                                                STATUS_FIELD_ID option_id of
                                           Inl e \<Rightarrow> s3\<lparr>errors := errors s3 + 1\<rparr>
                                         | Inr u \<Rightarrow> s3\<lparr>updated := updated s3 + 1\<rparr>)))))"

text \<open>The loop over the issue numbers still to visit.\<close>

fun main_loop ::
  "upd_args \<Rightarrow> string \<Rightarrow> (string \<times> string option) list \<Rightarrow> board \<Rightarrow> int list \<Rightarrow> run_state \<Rightarrow> run_state" where
  "main_loop a STATUS_FIELD_ID label_to_status gh [] s = s"
| "main_loop a STATUS_FIELD_ID label_to_status gh (issue_number # rest) s =
     main_loop a STATUS_FIELD_ID label_to_status gh rest
       (loop_body a STATUS_FIELD_ID label_to_status gh issue_number s)"

text \<open>
  \<^verbatim>\<open>main\<close> after the command line is read. An exception of the first query is not
  caught; a project without a status field ends the run with status 1; otherwise the
  loop runs over \<^verbatim>\<open>range(START_ISSUE, END_ISSUE + 1)\<close> and the summary is printed.
\<close>

datatype upd_result =
  Uncaught py_error
  | SysExit int
  | Summary run_state

definition update_main :: "board \<Rightarrow> upd_args \<Rightarrow> upd_result" where
  "update_main gh a =
     (case get_status_field_info gh (PROJECT_ID a) of
        Inl e \<Rightarrow> Uncaught e
      | Inr None \<Rightarrow> SysExit 1
      | Inr (Some sf) \<Rightarrow>
          (let STATUS_FIELD_ID = field_id sf;
               option_map = option_map_of (field_options sf) Map.empty;
               label_to_status = LABEL_TO_STATUS option_map
           in Summary (main_loop a STATUS_FIELD_ID label_to_status gh
                         [START_ISSUE a..END_ISSUE a]
                         \<lparr>updated = 0, skipped = 0, errors = 0, calls = []\<rparr>)))"


section \<open>Example trackers\<close>

text \<open>Command lines and trackers on which the properties below are evaluated.\<close>

definition example_args :: "string option \<Rightarrow> sel_args" where
  "example_args p =
     \<lparr>arg_priority = p, arg_epic = None, arg_status = ''backlog'',
      arg_owner = None, arg_repo = None\<rparr>"

definition tracker_empty :: tracker where
  "tracker_empty cmd = Inr []"


definition issue_refunds :: listed_issue where
  "issue_refunds =
     \<lparr>li_number = 12, li_title = ''Refunds'', li_createdAt = ''2024-01-05T10:00:00Z'',
      li_labels = [''priority:medium'', ''status:backlog''], li_assignees = []\<rparr>"

definition issue_receipts :: listed_issue where
  "issue_receipts =
     \<lparr>li_number = 3, li_title = ''Receipts'', li_createdAt = ''2024-02-01T08:30:00Z'',
      li_labels = [''priority:medium'', ''status:backlog''], li_assignees = []\<rparr>"

definition issue_typos :: listed_issue where
  "issue_typos =
     \<lparr>li_number = 1, li_title = ''Typos'', li_createdAt = ''2023-11-20T09:00:00Z'',
      li_labels = [''priority:low'', ''status:backlog''], li_assignees = []\<rparr>"

definition tracker_ml :: tracker where
  "tracker_ml cmd =
     (if ''priority:medium'' \<in> set cmd then Inr [issue_refunds, issue_receipts]
      else if ''priority:low'' \<in> set cmd then Inr [issue_typos]
      else Inr [])"


subsection \<open>Example board\<close>

definition args_example :: upd_args where
  "args_example =
     \<lparr>PROJECT_ID = ''PVT_1'', PROJECT_NUMBER = 4, OWNER = ''acme'', REPO = ''shop'',
      START_ISSUE = 1, END_ISSUE = 5\<rparr>"

definition field_example :: status_field where
  "field_example =
     \<lparr>field_id = ''PVTSSF_1'', field_name = ''Status'',
      field_options = [(''Todo'', ''opt_todo''), (''In Progress'', ''opt_doing''),
                       (''Done'', ''opt_done'')]\<rparr>"

definition board_example :: board where
  "board_example =
     \<lparr>gh_issue_view_labels =
        (\<lambda>n. if n = 1 then Inr [''type:bug'', ''status:backlog'']
             else if n = 2 then Inr [''status:done'']
             else if n = 3 then Inr [''type:docs'']
             else if n = 4 then Inr [''status:in-progress'']
             else Inl (CalledProcessError ''HTTP 502'')),
      gh_project_items =
        (\<lambda>owner repo n. if n = 1 then Inr [(''PVTI_0'', 9), (''PVTI_1'', 4)]
             else if n = 2 then Inr [(''PVTI_2'', 4)]
             else if n = 4 then Inr [(''PVTI_4'', 7)]
             else Inr []),
      gh_update_field = (\<lambda>item_id project_id fid option_id. Inr ()),
      gh_project_fields =
        (\<lambda>project_id. Inr [None, Some field_example])\<rparr>"

definition board_flaky :: board where
  "board_flaky =
     board_example\<lparr>gh_issue_view_labels :=
       (\<lambda>n. if n = 2 then Inl (CalledProcessError ''HTTP 502'')
            else gh_issue_view_labels board_example n)\<rparr>"

definition final_example :: run_state where
  "final_example =
     \<lparr>updated = 2, skipped = 1, errors = 2,
      calls = [IssueViewLabels 1, ProjectItems ''acme'' ''shop'' 1,
               UpdateField ''PVTI_1'' ''PVT_1'' ''PVTSSF_1'' ''opt_todo'',
               IssueViewLabels 2, ProjectItems ''acme'' ''shop'' 2,
               UpdateField ''PVTI_2'' ''PVT_1'' ''PVTSSF_1'' ''opt_done'',
               IssueViewLabels 3,
               IssueViewLabels 4, ProjectItems ''acme'' ''shop'' 4,
               IssueViewLabels 5]\<rparr>"


section \<open>Properties of fetch\_issue.py\<close>

subsection \<open>Splitting into lines\<close>

lemma split_nl_nonempty: "split_nl s \<noteq> []"
  by (induction s) (auto split: list.splits)

lemma split_nl_append: "split_nl (a @ CHR 0x0A # b) = split_nl a @ split_nl b"
proof (induction a)
  case Nil
  show ?case by simp
next
  case (Cons c cs)
  obtain l ls where "split_nl cs = l # ls"
    using split_nl_nonempty [of cs] by (cases "split_nl cs") auto
  with Cons show ?case by simp
qed

lemma split_nl_line: "CHR 0x0A \<notin> set h \<Longrightarrow> split_nl h = [h]"
  by (induction h) auto

text \<open>No line contains a newline, which is what \<open>checkbox_match\<close> relies on.\<close>

lemma split_nl_no_newline: "l \<in> set (split_nl s) \<Longrightarrow> CHR 0x0A \<notin> set l"
proof (induction s arbitrary: l)
  case Nil
  then show ?case by simp
next
  case (Cons c cs)
  obtain x xs where x: "split_nl cs = x # xs"
    using split_nl_nonempty [of cs] by (cases "split_nl cs") auto
  show ?case
  proof (cases "c = CHR 0x0A")
    case True
    with Cons show ?thesis by auto
  next
    case False
    with Cons.prems x have "l = c # x \<or> l \<in> set xs" by auto
    with Cons.IH x False show ?thesis by auto
  qed
qed

subsection \<open>Headings and the collection mode\<close>

lemma heading_no_checkbox: "startswith h ''#'' \<Longrightarrow> checkbox_match h = None"
  by (cases h) (auto simp: startswith_def checkbox_match_def isspace_def)

lemma heading_not_blank: "startswith h ''#'' \<Longrightarrow> strip h \<noteq> []"
  by (cases h) (auto simp: startswith_def strip_def isspace_def)

lemma criteria_loop_heading:
  "startswith h ''#'' \<Longrightarrow> \<not> is_criteria_header h \<Longrightarrow> criteria_loop (h # post) True acc = acc"
  by (simp add: heading_no_checkbox heading_not_blank)

text \<open>
  Once a header has been seen, a heading that is not itself a header ends the scan:
  the lines after it do not matter.
\<close>

lemma criteria_loop_cut:
  "in_sec \<or> (\<exists>l\<in>set pre. is_criteria_header l) \<Longrightarrow> startswith h ''#'' \<Longrightarrow>
   \<not> is_criteria_header h \<Longrightarrow>
   criteria_loop (pre @ h # post) in_sec acc = criteria_loop pre in_sec acc"
proof (induction pre arbitrary: in_sec acc)
  case Nil
  then show ?case by (simp add: heading_no_checkbox heading_not_blank)
next
  case (Cons l ls)
  show ?case
  proof (cases "is_criteria_header l")
    case True
    with Cons show ?thesis by simp
  next
    case False
    show ?thesis
    proof (cases in_sec)
      case True
      with False Cons show ?thesis by (auto split: option.splits)
    next
      case nin: False
      with False Cons.prems have "\<exists>l\<in>set ls. is_criteria_header l" by auto
      with False nin Cons show ?thesis by simp
    qed
  qed
qed

lemma header_line: "is_criteria_header ''## Acceptance Criteria''"
  by (simp add: is_criteria_header_def lower_def lower_char_def startswith_def)

text \<open>
  C7. \<^verbatim>\<open>parse\<close> applied to the body
  \<^verbatim>\<open>"## Acceptance Criteria\n- [ ] a\n- [x] b\n## Next"\<close> returns exactly the two criteria
  (unchecked, "a") and (checked, "b"); and whatever text follows the second heading,
  checkbox lines included, the result stays these two criteria.
\<close>

theorem parse_example:
  "parse_acceptance_criteria
     ''## Acceptance Criteria\<newline>- [ ] a\<newline>- [x] b\<newline>## Next'' =
     [\<lparr>checked = False, item_text = ''a''\<rparr>, \<lparr>checked = True, item_text = ''b''\<rparr>]
   \<and> (\<forall>rest. parse_acceptance_criteria
        (''## Acceptance Criteria\<newline>- [ ] a\<newline>- [x] b\<newline>## Next\<newline>'' @ rest) =
     [\<lparr>checked = False, item_text = ''a''\<rparr>, \<lparr>checked = True, item_text = ''b''\<rparr>])"
proof -
  let ?pre = "[''## Acceptance Criteria'', ''- [ ] a'', ''- [x] b'']"
  let ?res = "[\<lparr>checked = False, item_text = ''a''\<rparr>, \<lparr>checked = True, item_text = ''b''\<rparr>]"
  have nh: "\<not> is_criteria_header ''## Next''"
    by (simp add: is_criteria_header_def lower_def lower_char_def startswith_def)
  have hd: "startswith ''## Next'' ''#''" by (simp add: startswith_def)
  have pre: "criteria_loop ?pre False [] = ?res"
    by (simp add: is_criteria_header_def lower_def lower_char_def startswith_def
        checkbox_match_def isspace_def strip_def)
  have cut: "criteria_loop (?pre @ ''## Next'' # post) False [] = ?res" for post
    using criteria_loop_cut [of False ?pre "''## Next''" post "[]"] header_line nh hd pre
    by simp
  have one: "parse_acceptance_criteria
     ''## Acceptance Criteria\<newline>- [ ] a\<newline>- [x] b\<newline>## Next'' = ?res"
    using cut [of "[]"] by (simp add: parse_acceptance_criteria_def)
  have two: "parse_acceptance_criteria
        (''## Acceptance Criteria\<newline>- [ ] a\<newline>- [x] b\<newline>## Next\<newline>'' @ rest) = ?res" for rest
  proof -
    have "split_nl (''## Acceptance Criteria\<newline>- [ ] a\<newline>- [x] b\<newline>## Next\<newline>'' @ rest)
        = ?pre @ ''## Next'' # split_nl rest"
      using split_nl_append [of "''## Acceptance Criteria\<newline>- [ ] a\<newline>- [x] b\<newline>## Next''" rest]
      by simp
    then show ?thesis using cut [of "split_nl rest"] by (simp add: parse_acceptance_criteria_def)
  qed
  from one two show ?thesis by blast
qed

text \<open>
  C8, as the claim states it, fails: in the body below the third line begins with the
  heading marker and is read while collecting, yet collection goes on, and the checkbox
  item under this later matching header is part of the result.
\<close>

theorem later_header_counterexample:
  "startswith ''## More acceptance criteria'' ''#'' \<and>
   parse_acceptance_criteria
     ''## Acceptance Criteria\<newline>- [ ] a\<newline>## More acceptance criteria\<newline>- [ ] b'' =
     [\<lparr>checked = False, item_text = ''a''\<rparr>, \<lparr>checked = False, item_text = ''b''\<rparr>]"
  by (simp add: parse_acceptance_criteria_def is_criteria_header_def lower_def lower_char_def
      startswith_def checkbox_match_def isspace_def strip_def)

text \<open>
  C8, amended. While the parser is in collection mode, a line that begins with the
  heading marker and does not itself contain "acceptance criteria" ends collection at
  once, whatever follows it. So for a body in which such a heading comes after a line
  containing "acceptance criteria", nothing from the heading on is part of the result,
  also when a matching header appears again later: the result is that of the text
  before the heading.
\<close>

theorem heading_ends_collection:
  assumes "\<exists>l\<in>set (split_nl pre). is_criteria_header l"
    and "startswith h ''#''"
    and "\<not> is_criteria_header h"
    and "CHR 0x0A \<notin> set h"
  shows "criteria_loop (h # lines) True acc = acc
    \<and> parse_acceptance_criteria (pre @ CHR 0x0A # h) = parse_acceptance_criteria pre
    \<and> parse_acceptance_criteria (pre @ CHR 0x0A # h @ CHR 0x0A # post) =
        parse_acceptance_criteria pre"
proof -
  have pre_ne: "pre \<noteq> []"
  proof
    assume "pre = []"
    with assms(1) have "is_criteria_header []" by simp
    then show False by (simp add: is_criteria_header_def lower_def)
  qed
  have a: "criteria_loop (h # lines) True acc = acc"
    using assms(2,3) by (rule criteria_loop_heading)
  have s1: "split_nl (pre @ CHR 0x0A # h) = split_nl pre @ h # []"
    using assms(4) by (simp add: split_nl_append split_nl_line)
  have s2: "split_nl (pre @ CHR 0x0A # h @ CHR 0x0A # post) = split_nl pre @ h # split_nl post"
    using split_nl_append [of pre "h @ CHR 0x0A # post"] split_nl_append [of h post] assms(4)
    by (simp add: split_nl_line)
  have b: "parse_acceptance_criteria (pre @ CHR 0x0A # h) = parse_acceptance_criteria pre"
    using pre_ne s1 criteria_loop_cut [of False "split_nl pre" h "[]" "[]"] assms(1,2,3)
    by (simp add: parse_acceptance_criteria_def)
  have c: "parse_acceptance_criteria (pre @ CHR 0x0A # h @ CHR 0x0A # post) =
        parse_acceptance_criteria pre"
    using pre_ne s2 criteria_loop_cut [of False "split_nl pre" h "split_nl post" "[]"] assms(1,2,3)
    by (simp add: parse_acceptance_criteria_def)
  from a b c show ?thesis by blast
qed

theorem heading_ends_collection_witness:
  "(\<exists>l\<in>set (split_nl ''Acceptance Criteria\<newline>- [ ] a''). is_criteria_header l)
   \<and> startswith ''# Notes'' ''#''
   \<and> \<not> is_criteria_header ''# Notes''
   \<and> CHR 0x0A \<notin> set ''# Notes''
   \<and> parse_acceptance_criteria
       ''Acceptance Criteria\<newline>- [ ] a\<newline># Notes\<newline>Acceptance Criteria\<newline>- [ ] b'' =
     [\<lparr>checked = False, item_text = ''a''\<rparr>]"
proof -
  have h1: "\<exists>l\<in>set (split_nl ''Acceptance Criteria\<newline>- [ ] a''). is_criteria_header l"
    by (simp add: is_criteria_header_def lower_def lower_char_def startswith_def)
  have h2: "startswith ''# Notes'' ''#''" by (simp add: startswith_def)
  have h3: "\<not> is_criteria_header ''# Notes''"
    by (simp add: is_criteria_header_def lower_def lower_char_def startswith_def)
  have h4: "CHR 0x0A \<notin> set ''# Notes''" by simp
  have p: "parse_acceptance_criteria ''Acceptance Criteria\<newline>- [ ] a'' =
      [\<lparr>checked = False, item_text = ''a''\<rparr>]"
    by (simp add: parse_acceptance_criteria_def is_criteria_header_def lower_def lower_char_def
        startswith_def checkbox_match_def isspace_def strip_def)
  show ?thesis
    using heading_ends_collection [OF h1 h2 h3 h4, of "[]" "[]" "''Acceptance Criteria\<newline>- [ ] b''"]
      h1 h2 h3 h4 p
    by simp
qed

subsection \<open>Label codec\<close>

lemma startswith_append: "startswith s p \<Longrightarrow> s = p @ drop (length p) s"
  unfolding startswith_def by (metis append_take_drop_id)

lemma extract_label_filter:
  "extract_label labels prefix =
     (case filter (\<lambda>l. startswith (label_name l) prefix) labels of
        [] \<Rightarrow> None
      | l # others \<Rightarrow> Some (drop (length prefix) (label_name l)))"
  by (induction labels) auto

text \<open>
  C9. For every label list and prefix: when no label's name starts with the prefix,
  \<^verbatim>\<open>extract_label\<close> returns \<^verbatim>\<open>None\<close>; when the labels whose name starts with the prefix
  are \<open>l\<close> followed by \<open>others\<close>, in list order, it returns the suffix of \<open>l\<close>, the string
  that makes the name of \<open>l\<close> when put after the prefix. With \<open>others\<close> empty this is the
  case of exactly one such label; otherwise the first one encountered wins.
\<close>

theorem extract_label_first:
  "(filter (\<lambda>l. startswith (label_name l) prefix) labels = []
      \<longrightarrow> extract_label labels prefix = None)
   \<and> (filter (\<lambda>l. startswith (label_name l) prefix) labels = l # others
      \<longrightarrow> (\<exists>suffix. extract_label labels prefix = Some suffix \<and> label_name l = prefix @ suffix))"
proof (intro conjI impI)
  assume "filter (\<lambda>l. startswith (label_name l) prefix) labels = []"
  then show "extract_label labels prefix = None"
    by (simp add: extract_label_filter)
next
  assume f: "filter (\<lambda>l. startswith (label_name l) prefix) labels = l # others"
  then have "l \<in> set (filter (\<lambda>l. startswith (label_name l) prefix) labels)" by simp
  then have "startswith (label_name l) prefix" by simp
  then have "label_name l = prefix @ drop (length prefix) (label_name l)"
    by (rule startswith_append)
  moreover from f have "extract_label labels prefix = Some (drop (length prefix) (label_name l))"
    by (simp add: extract_label_filter)
  ultimately show "\<exists>suffix. extract_label labels prefix = Some suffix \<and> label_name l = prefix @ suffix"
    by blast
qed

theorem extract_label_first_witness:
  "map label_name (filter (\<lambda>l. startswith (label_name l) ''epic:'') [[''name'' \<mapsto> ''bug'']]) = []
   \<and> extract_label [[''name'' \<mapsto> ''bug'']] ''epic:'' = None
   \<and> map label_name (filter (\<lambda>l. startswith (label_name l) ''epic:'')
        [[''name'' \<mapsto> ''bug''], [''name'' \<mapsto> ''epic:auth''], [''name'' \<mapsto> ''epic:pay'']]) =
       [''epic:auth'', ''epic:pay'']
   \<and> extract_label [[''name'' \<mapsto> ''bug''], [''name'' \<mapsto> ''epic:auth''], [''name'' \<mapsto> ''epic:pay'']]
        ''epic:'' = Some ''auth''"
proof -
  let ?b = "[''name'' \<mapsto> ''bug''] :: label"
  let ?a = "[''name'' \<mapsto> ''epic:auth''] :: label"
  let ?p = "[''name'' \<mapsto> ''epic:pay''] :: label"
  have n: "label_name ?b = ''bug''" "label_name ?a = ''epic:auth''" "label_name ?p = ''epic:pay''"
    by (simp_all add: label_name_def)
  have f0: "filter (\<lambda>l. startswith (label_name l) ''epic:'') [?b] = []"
    by (simp add: n startswith_def)
  have f1: "filter (\<lambda>l. startswith (label_name l) ''epic:'') [?b, ?a, ?p] = ?a # [?p]"
    by (simp add: n startswith_def)
  from extract_label_first [of "''epic:''" "[?b]"] f0
  have r0: "extract_label [?b] ''epic:'' = None" by blast
  from extract_label_first [of "''epic:''" "[?b, ?a, ?p]" ?a "[?p]"] f1
  obtain suffix where ex: "extract_label [?b, ?a, ?p] ''epic:'' = Some suffix"
    and nm: "label_name ?a = ''epic:'' @ suffix" by blast
  from nm have "suffix = ''auth''" by (simp add: label_name_def)
  with ex have r1: "extract_label [?b, ?a, ?p] ''epic:'' = Some ''auth''" by blast
  have m0: "map label_name (filter (\<lambda>l. startswith (label_name l) ''epic:'') [?b]) = []"
    by (simp only: f0 list.map)
  have m1: "map label_name (filter (\<lambda>l. startswith (label_name l) ''epic:'') [?b, ?a, ?p]) =
      [''epic:auth'', ''epic:pay'']"
    by (simp only: f1 list.map n)
  from m0 r0 m1 r1 show ?thesis by blast
qed

subsection \<open>Validation\<close>

text \<open>
  C6, as the claim states it, fails: an open issue with no assignees, no acceptance
  criteria, no epic and no priority gets three warnings, not four.
\<close>

theorem validate_open_counterexample:
  "length (snd (validate_issue
     \<lparr>iss_number = 1, iss_title = ''t'', iss_body = [], iss_acceptance_criteria = [],
      iss_epic = None, iss_priority = None, iss_status = None, iss_type = None,
      iss_assignees = [], iss_milestone = None, iss_state = ''OPEN'', iss_url = []\<rparr>)) \<noteq> 4"
  by (simp add: validate_issue_def truthy_def)

text \<open>
  C6, amended. For every issue record, \<^verbatim>\<open>validate\<close> returns \<^verbatim>\<open>isValid = false\<close> whenever
  the state is \<^verbatim>\<open>CLOSED\<close>, whatever the other fields; and for every open issue with no
  assignees, no acceptance criteria, no epic label and no priority label it returns
  \<^verbatim>\<open>isValid = true\<close> together with exactly three warnings: no acceptance criteria, no
  epic label, no priority label.
\<close>

theorem validate_closed_open:
  "(iss_state i = ''CLOSED'' \<longrightarrow> fst (validate_issue i) = False)
   \<and> (iss_state i = ''OPEN'' \<and> iss_assignees i = [] \<and> iss_acceptance_criteria i = []
        \<and> iss_epic i = None \<and> iss_priority i = None
      \<longrightarrow> validate_issue i = (True, [NoAcceptanceCriteria, NoEpicLabel, NoPriorityLabel]))"
  by (simp add: validate_issue_def truthy_def Let_def)

theorem validate_closed_open_witness:
  "fst (validate_issue
     \<lparr>iss_number = 2, iss_title = ''t'', iss_body = ''b'',
      iss_acceptance_criteria = [\<lparr>checked = True, item_text = ''a''\<rparr>],
      iss_epic = Some ''e'', iss_priority = Some ''high'', iss_status = Some ''done'',
      iss_type = None, iss_assignees = [''u''], iss_milestone = None,
      iss_state = ''CLOSED'', iss_url = []\<rparr>) = False
   \<and> validate_issue
     \<lparr>iss_number = 1, iss_title = ''t'', iss_body = [], iss_acceptance_criteria = [],
      iss_epic = None, iss_priority = None, iss_status = None, iss_type = None,
      iss_assignees = [], iss_milestone = None, iss_state = ''OPEN'', iss_url = []\<rparr> =
     (True, [NoAcceptanceCriteria, NoEpicLabel, NoPriorityLabel])"
  using validate_closed_open [of "\<lparr>iss_number = 2, iss_title = ''t'', iss_body = ''b'',
      iss_acceptance_criteria = [\<lparr>checked = True, item_text = ''a''\<rparr>],
      iss_epic = Some ''e'', iss_priority = Some ''high'', iss_status = Some ''done'',
      iss_type = None, iss_assignees = [''u''], iss_milestone = None,
      iss_state = ''CLOSED'', iss_url = []\<rparr>"]
    validate_closed_open [of "\<lparr>iss_number = 1, iss_title = ''t'', iss_body = [], iss_acceptance_criteria = [],
      iss_epic = None, iss_priority = None, iss_status = None, iss_type = None,
      iss_assignees = [], iss_milestone = None, iss_state = ''OPEN'', iss_url = []\<rparr>"]
  by simp


section \<open>Properties of select\_issue.py\<close>

subsection \<open>One query\<close>

lemma issue_list_cmd_inj:
  "issue_list_cmd p e s ow re = issue_list_cmd q e s ow re \<Longrightarrow> p = q"
  by (auto simp: issue_list_cmd_def Let_def split: option.splits if_splits)

lemma select_next_issue_empty:
  "gh (issue_list_cmd p e s ow re) = Inr [] \<Longrightarrow>
   select_next_issue gh p e s ow re io =
     (Inr None, io\<lparr>commands := commands io @ [issue_list_cmd p e s ow re]\<rparr>)"
  by (simp add: select_next_issue_def Let_def)

lemma select_next_issue_found:
  "gh (issue_list_cmd p e s ow re) = Inr (i # rest) \<Longrightarrow>
   select_next_issue gh p e s ow re io =
     (Inr (Some i), io\<lparr>commands := commands io @ [issue_list_cmd p e s ow re]\<rparr>)"
  by (simp add: select_next_issue_def Let_def)


lemma select_next_issue_commands:
  "commands (snd (select_next_issue gh p e s ow re io)) = commands io @ [issue_list_cmd p e s ow re]"
  by (simp add: select_next_issue_def Let_def split: sum.splits py_error.splits list.splits)


subsection \<open>The cascade\<close>

lemma fallback_loop_skip:
  "\<forall>q\<in>set before. gh (issue_list_cmd q e s ow re) = Inr [] \<Longrightarrow>
   fallback_loop gh (before @ ps) e s ow re io =
     fallback_loop gh ps e s ow re
       (io\<lparr>commands := commands io @ map (\<lambda>q. issue_list_cmd q e s ow re) before\<rparr>)"
proof (induction before arbitrary: io)
  case Nil
  show ?case by simp
next
  case (Cons q qs)
  then show ?case by (simp add: select_next_issue_empty)
qed



text \<open>
  C3. \<^verbatim>\<open>select_with_fallback\<close> queries the tiers in the fixed order critical, high,
  medium, low and returns the first element of the first tier whose candidate list is
  not empty: when the tiers \<open>before\<close> tier \<open>p\<close> all answer with an empty list and tier \<open>p\<close>
  answers \<open>i # rest\<close>, the result is \<open>i\<close>, the queries made are those for \<open>before\<close> and
  \<open>p\<close>, in this order and nothing else, so that no tier \<open>after\<close> \<open>p\<close> is queried; and \<open>i\<close>
  is the oldest issue of its tier when the tracker lists the tier by creation time.
  With \<open>before\<close> critical and high, \<open>p\<close> medium and \<open>after\<close> low this is the case of the
  claim.
\<close>

theorem cascade_first_tier:
  assumes "PRIORITY_ORDER = before @ p # after"
    and "\<forall>q\<in>set before. gh (issue_list_cmd q e s ow re) = Inr []"
    and "gh (issue_list_cmd p e s ow re) = Inr (i # rest)"
  shows "PRIORITY_ORDER = [''critical'', ''high'', ''medium'', ''low'']
    \<and> select_with_fallback gh e s ow re io =
        (Inr (Some i),
         io\<lparr>commands := commands io @ map (\<lambda>q. issue_list_cmd q e s ow re) (before @ [p])\<rparr>)
    \<and> (\<forall>q\<in>set after. issue_list_cmd q e s ow re
          \<notin> set (map (\<lambda>q. issue_list_cmd q e s ow re) (before @ [p])))
    \<and> (sorted (map li_createdAt (i # rest)) \<longrightarrow>
          (\<forall>j\<in>set (i # rest). li_createdAt i \<le> li_createdAt j))"
proof -
  have a: "PRIORITY_ORDER = [''critical'', ''high'', ''medium'', ''low'']"
    by (simp add: PRIORITY_ORDER_def)
  have b: "select_with_fallback gh e s ow re io =
        (Inr (Some i),
         io\<lparr>commands := commands io @ map (\<lambda>q. issue_list_cmd q e s ow re) (before @ [p])\<rparr>)"
    unfolding select_with_fallback_def assms(1)
    using fallback_loop_skip [of before gh e s ow re "p # after" io] assms(2,3)
    by (simp add: select_next_issue_found)
  have "distinct PRIORITY_ORDER" by (simp add: PRIORITY_ORDER_def)
  then have d: "distinct (before @ p # after)" using assms(1) by simp
  have c: "\<forall>q\<in>set after. issue_list_cmd q e s ow re
          \<notin> set (map (\<lambda>q. issue_list_cmd q e s ow re) (before @ [p]))"
  proof
    fix q assume q: "q \<in> set after"
    show "issue_list_cmd q e s ow re \<notin> set (map (\<lambda>q. issue_list_cmd q e s ow re) (before @ [p]))"
    proof
      assume "issue_list_cmd q e s ow re \<in> set (map (\<lambda>q. issue_list_cmd q e s ow re) (before @ [p]))"
      then obtain q' where "q' \<in> set (before @ [p])"
        and "issue_list_cmd q e s ow re = issue_list_cmd q' e s ow re" by auto
      then have "q \<in> set (before @ [p])" using issue_list_cmd_inj by blast
      with q d show False by auto
    qed
  qed
  have e: "sorted (map li_createdAt (i # rest)) \<longrightarrow>
          (\<forall>j\<in>set (i # rest). li_createdAt i \<le> li_createdAt j)"
    by auto
  from a b c e show ?thesis by blast
qed

lemma tracker_ml_tiers:
  "tracker_ml (issue_list_cmd ''critical'' None ''backlog'' None None) = Inr []"
  "tracker_ml (issue_list_cmd ''high'' None ''backlog'' None None) = Inr []"
  "tracker_ml (issue_list_cmd ''medium'' None ''backlog'' None None) =
     Inr [issue_refunds, issue_receipts]"
  "tracker_ml (issue_list_cmd ''low'' None ''backlog'' None None) = Inr [issue_typos]"
  by (simp_all add: tracker_ml_def issue_list_cmd_def)

theorem cascade_first_tier_witness:
  "tracker_ml (issue_list_cmd ''critical'' None ''backlog'' None None) = Inr []
   \<and> tracker_ml (issue_list_cmd ''high'' None ''backlog'' None None) = Inr []
   \<and> tracker_ml (issue_list_cmd ''medium'' None ''backlog'' None None) =
       Inr [issue_refunds, issue_receipts]
   \<and> tracker_ml (issue_list_cmd ''low'' None ''backlog'' None None) = Inr [issue_typos]
   \<and> sorted (map li_createdAt [issue_refunds, issue_receipts])
   \<and> select_with_fallback tracker_ml None ''backlog'' None None
        \<lparr>commands = [], stderr = [], stdout = []\<rparr> =
       (Inr (Some issue_refunds),
        \<lparr>commands = [issue_list_cmd ''critical'' None ''backlog'' None None,
                     issue_list_cmd ''high'' None ''backlog'' None None,
                     issue_list_cmd ''medium'' None ''backlog'' None None],
         stderr = [], stdout = []\<rparr>)
   \<and> issue_list_cmd ''low'' None ''backlog'' None None
        \<notin> set [issue_list_cmd ''critical'' None ''backlog'' None None,
                 issue_list_cmd ''high'' None ''backlog'' None None,
                 issue_list_cmd ''medium'' None ''backlog'' None None]
   \<and> li_createdAt issue_refunds \<le> li_createdAt issue_receipts"
proof -
  let ?cmd = "\<lambda>q. issue_list_cmd q None ''backlog'' None None"
  let ?io0 = "\<lparr>commands = [], stderr = [], stdout = []\<rparr>"
  have h1: "PRIORITY_ORDER = [''critical'', ''high''] @ ''medium'' # [''low'']"
    by (simp add: PRIORITY_ORDER_def)
  have h2: "\<forall>q\<in>set [''critical'', ''high'']. tracker_ml (?cmd q) = Inr []"
    by (simp add: tracker_ml_tiers)
  have h3: "tracker_ml (?cmd ''medium'') = Inr (issue_refunds # [issue_receipts])"
    by (simp add: tracker_ml_tiers)
  have h4: "sorted (map li_createdAt [issue_refunds, issue_receipts])"
    by (simp add: issue_refunds_def issue_receipts_def)
  note t = cascade_first_tier [OF h1 h2 h3, of ?io0]
  from t have a: "select_with_fallback tracker_ml None ''backlog'' None None ?io0 =
       (Inr (Some issue_refunds),
        \<lparr>commands = [?cmd ''critical'', ?cmd ''high'', ?cmd ''medium''],
         stderr = [], stdout = []\<rparr>)"
    by simp
  from t have b: "?cmd ''low'' \<notin> set [?cmd ''critical'', ?cmd ''high'', ?cmd ''medium'']"
    by simp
  from t h4 have c: "li_createdAt issue_refunds \<le> li_createdAt issue_receipts"
    by simp
  from tracker_ml_tiers h4 a b c show ?thesis by blast
qed

subsection \<open>The command line\<close>

lemma select_main_explicit_cases:
  assumes "arg_priority args = Some p" and "p \<noteq> []"
    and "select_next_issue gh p (arg_epic args) (arg_status args) (arg_owner args) (arg_repo args)
            \<lparr>commands = [], stderr = [], stdout = []\<rparr> = (r, io1)"
  shows "commands (snd (select_main gh args)) = commands io1"
    and "r = Inr None \<Longrightarrow> select_main gh args =
          (1, io1\<lparr>stderr := stderr io1 @
                 [NoIssuesFoundMatching (join '', ''
                    ([''priority:'' @ p] @
                     (case arg_epic args of
                        Some e \<Rightarrow> if e \<noteq> [] then [''epic:'' @ e] else []
                      | None \<Rightarrow> []) @
                     [''status:'' @ arg_status args]))]\<rparr>)"
proof -
  show "commands (snd (select_main gh args)) = commands io1"
    unfolding select_main_def Let_def using assms
    by (cases r) (simp_all split: option.splits)
  show "r = Inr None \<Longrightarrow> select_main gh args =
          (1, io1\<lparr>stderr := stderr io1 @
                 [NoIssuesFoundMatching (join '', ''
                    ([''priority:'' @ p] @
                     (case arg_epic args of
                        Some e \<Rightarrow> if e \<noteq> [] then [''epic:'' @ e] else []
                      | None \<Rightarrow> []) @
                     [''status:'' @ arg_status args]))]\<rparr>)"
    unfolding select_main_def Let_def using assms by simp
qed



text \<open>
  C4. With an explicit priority exactly one tier is queried and there is no fallback:
  the single command run is the query for that priority, and when its candidate list
  is empty the selection is \<^verbatim>\<open>None\<close>, the run ends with status 1 and prints no issue
  number, and the query of no other priority is among the commands run. With \<open>p\<close> low
  the tiers critical, high and medium are never queried.
\<close>

theorem explicit_priority_one_tier:
  assumes "arg_priority args = Some p" and "p \<noteq> []"
  shows "commands (snd (select_main gh args)) =
      [issue_list_cmd p (arg_epic args) (arg_status args) (arg_owner args) (arg_repo args)]
    \<and> (gh (issue_list_cmd p (arg_epic args) (arg_status args) (arg_owner args) (arg_repo args)) = Inr []
        \<longrightarrow> fst (select_next_issue gh p (arg_epic args) (arg_status args) (arg_owner args)
                   (arg_repo args) \<lparr>commands = [], stderr = [], stdout = []\<rparr>) = Inr None
          \<and> fst (select_main gh args) = 1
          \<and> stdout (snd (select_main gh args)) = []
          \<and> (\<forall>q. q \<noteq> p \<longrightarrow>
                issue_list_cmd q (arg_epic args) (arg_status args) (arg_owner args) (arg_repo args)
                  \<notin> set (commands (snd (select_main gh args)))))"
proof -
  let ?cmd = "\<lambda>q. issue_list_cmd q (arg_epic args) (arg_status args) (arg_owner args) (arg_repo args)"
  let ?io0 = "\<lparr>commands = [], stderr = [], stdout = []\<rparr>"
  obtain r io1 where r: "select_next_issue gh p (arg_epic args) (arg_status args) (arg_owner args)
      (arg_repo args) ?io0 = (r, io1)"
    by (cases "select_next_issue gh p (arg_epic args) (arg_status args) (arg_owner args)
      (arg_repo args) ?io0")
  have c1: "commands io1 = [?cmd p]"
    using select_next_issue_commands [of gh p "arg_epic args" "arg_status args" "arg_owner args"
        "arg_repo args" ?io0] r by simp
  have a: "commands (snd (select_main gh args)) = [?cmd p]"
    using select_main_explicit_cases(1) [OF assms r] c1 by simp
  have b: "fst (select_next_issue gh p (arg_epic args) (arg_status args) (arg_owner args)
                   (arg_repo args) ?io0) = Inr None
          \<and> fst (select_main gh args) = 1
          \<and> stdout (snd (select_main gh args)) = []
          \<and> (\<forall>q. q \<noteq> p \<longrightarrow> ?cmd q \<notin> set (commands (snd (select_main gh args))))"
    if e: "gh (?cmd p) = Inr []"
  proof -
    have s: "select_next_issue gh p (arg_epic args) (arg_status args) (arg_owner args)
        (arg_repo args) ?io0 = (Inr None, ?io0\<lparr>commands := commands ?io0 @ [?cmd p]\<rparr>)"
      using e by (rule select_next_issue_empty)
    with r have rn: "r = Inr None" and io: "io1 = ?io0\<lparr>commands := commands ?io0 @ [?cmd p]\<rparr>"
      by simp_all
    have m: "fst (select_main gh args) = 1" "stdout (snd (select_main gh args)) = []"
      using select_main_explicit_cases(2) [OF assms r rn] io by simp_all
    have "\<forall>q. q \<noteq> p \<longrightarrow> ?cmd q \<notin> set (commands (snd (select_main gh args)))"
      using a issue_list_cmd_inj by auto
    with s m show ?thesis by simp
  qed
  from a b show ?thesis by blast
qed

theorem explicit_priority_one_tier_witness:
  "arg_priority (example_args (Some ''low'')) = Some ''low''
   \<and> tracker_empty (issue_list_cmd ''low'' None ''backlog'' None None) = Inr []
   \<and> fst (select_main tracker_empty (example_args (Some ''low''))) = 1
   \<and> stdout (snd (select_main tracker_empty (example_args (Some ''low'')))) = []
   \<and> commands (snd (select_main tracker_empty (example_args (Some ''low'')))) =
       [issue_list_cmd ''low'' None ''backlog'' None None]
   \<and> issue_list_cmd ''critical'' None ''backlog'' None None
        \<notin> set (commands (snd (select_main tracker_empty (example_args (Some ''low'')))))
   \<and> issue_list_cmd ''high'' None ''backlog'' None None
        \<notin> set (commands (snd (select_main tracker_empty (example_args (Some ''low'')))))
   \<and> issue_list_cmd ''medium'' None ''backlog'' None None
        \<notin> set (commands (snd (select_main tracker_empty (example_args (Some ''low'')))))"
proof -
  let ?args = "example_args (Some ''low'')"
  have h1: "arg_priority ?args = Some ''low''"
    by (simp add: example_args_def)
  have h2: "''low'' \<noteq> []" by simp
  have f: "arg_epic ?args = None" "arg_status ?args = ''backlog''"
    "arg_owner ?args = None" "arg_repo ?args = None"
    by (simp_all add: example_args_def)
  have h3: "tracker_empty (issue_list_cmd ''low'' None ''backlog'' None None) = Inr []"
    by (simp add: tracker_empty_def)
  note t = explicit_priority_one_tier [OF h1 h2, of tracker_empty, unfolded f]
  from t have c: "commands (snd (select_main tracker_empty ?args)) =
       [issue_list_cmd ''low'' None ''backlog'' None None]" by blast
  from t h3 have e: "fst (select_main tracker_empty ?args) = 1"
    "stdout (snd (select_main tracker_empty ?args)) = []" by blast+
  from t h3 have n: "\<forall>q. q \<noteq> ''low'' \<longrightarrow> issue_list_cmd q None ''backlog'' None None
          \<notin> set (commands (snd (select_main tracker_empty ?args)))" by blast
  have n1: "issue_list_cmd ''critical'' None ''backlog'' None None
        \<notin> set (commands (snd (select_main tracker_empty ?args)))"
    using n by simp
  have n2: "issue_list_cmd ''high'' None ''backlog'' None None
        \<notin> set (commands (snd (select_main tracker_empty ?args)))"
    using n by simp
  have n3: "issue_list_cmd ''medium'' None ''backlog'' None None
        \<notin> set (commands (snd (select_main tracker_empty ?args)))"
    using n by simp
  from h1 h3 c e n1 n2 n3 show ?thesis by blast
qed





section \<open>Properties of update\_status.py\<close>

subsection \<open>One iteration\<close>

lemma upto_1_5: "[1..5::int] = [1, 2, 3, 4, 5]"
  by code_simp

lemma label_to_status_keys:
  "map_of (LABEL_TO_STATUS om) l \<noteq> None \<longleftrightarrow>
     l = ''status:backlog'' \<or> l = ''status:in-progress'' \<or> l = ''status:done''"
  by (simp add: LABEL_TO_STATUS_def)

lemma find_single:
  "lab \<in> set ls \<Longrightarrow> P lab \<Longrightarrow> \<forall>l\<in>set ls. P l \<longrightarrow> l = lab \<Longrightarrow> find P ls = Some lab"
proof (induction ls)
  case Nil
  then show ?case by simp
next
  case (Cons x xs)
  show ?case
  proof (cases "P x")
    case True
    with Cons.prems(3) have "x = lab" by simp
    with True show ?thesis by simp
  next
    case False
    with Cons.prems(1,2) have "lab \<in> set xs" by auto
    moreover from Cons.prems(3) have "\<forall>l\<in>set xs. P l \<longrightarrow> l = lab" by simp
    ultimately have "find P xs = Some lab" using Cons.IH Cons.prems(2) by blast
    with False show ?thesis by simp
  qed
qed

lemma find_none: "\<forall>l\<in>set ls. \<not> P l \<Longrightarrow> find P ls = None"
  by (induction ls) auto

lemma loop_body_fetch_error:
  "get_issue_labels gh n = Inl e \<Longrightarrow>
   loop_body a fid L gh n s = s\<lparr>calls := calls s @ [IssueViewLabels n], errors := errors s + 1\<rparr>"
  by (simp add: loop_body_def Let_def)

lemma loop_body_skipped:
  "get_issue_labels gh n = Inr ls \<Longrightarrow> find (\<lambda>label. map_of L label \<noteq> None) ls = None \<Longrightarrow>
   loop_body a fid L gh n s = s\<lparr>calls := calls s @ [IssueViewLabels n], skipped := skipped s + 1\<rparr>"
  by (simp add: loop_body_def Let_def)

lemma loop_body_item_error:
  "get_issue_labels gh n = Inr ls \<Longrightarrow> find (\<lambda>label. map_of L label \<noteq> None) ls = Some lab \<Longrightarrow>
   lab \<noteq> [] \<Longrightarrow>
   get_project_item_id gh n (PROJECT_NUMBER a) (OWNER a) (REPO a) = Inl e \<Longrightarrow>
   loop_body a fid L gh n s =
     s\<lparr>calls := calls s @ [IssueViewLabels n, ProjectItems (OWNER a) (REPO a) n],
       errors := errors s + 1\<rparr>"
  by (simp add: loop_body_def Let_def)

lemma loop_body_no_item:
  "get_issue_labels gh n = Inr ls \<Longrightarrow> find (\<lambda>label. map_of L label \<noteq> None) ls = Some lab \<Longrightarrow>
   lab \<noteq> [] \<Longrightarrow>
   get_project_item_id gh n (PROJECT_NUMBER a) (OWNER a) (REPO a) = Inr None \<Longrightarrow>
   loop_body a fid L gh n s =
     s\<lparr>calls := calls s @ [IssueViewLabels n, ProjectItems (OWNER a) (REPO a) n],
       errors := errors s + 1\<rparr>"
  by (simp add: loop_body_def Let_def)

lemma loop_body_updated:
  "get_issue_labels gh n = Inr ls \<Longrightarrow> find (\<lambda>label. map_of L label \<noteq> None) ls = Some lab \<Longrightarrow>
   lab \<noteq> [] \<Longrightarrow>
   get_project_item_id gh n (PROJECT_NUMBER a) (OWNER a) (REPO a) = Inr (Some item) \<Longrightarrow>
   item \<noteq> [] \<Longrightarrow> map_of L lab = Some (Some opt) \<Longrightarrow> opt \<noteq> [] \<Longrightarrow>
   update_issue_status gh item (PROJECT_ID a) fid opt = Inr u \<Longrightarrow>
   loop_body a fid L gh n s =
     s\<lparr>calls := calls s @ [IssueViewLabels n, ProjectItems (OWNER a) (REPO a) n,
                            UpdateField item (PROJECT_ID a) fid opt],
       updated := updated s + 1\<rparr>"
  by (simp add: loop_body_def Let_def)

lemma loop_body_update_error:
  "get_issue_labels gh n = Inr ls \<Longrightarrow> find (\<lambda>label. map_of L label \<noteq> None) ls = Some lab \<Longrightarrow>
   lab \<noteq> [] \<Longrightarrow>
   get_project_item_id gh n (PROJECT_NUMBER a) (OWNER a) (REPO a) = Inr (Some item) \<Longrightarrow>
   item \<noteq> [] \<Longrightarrow> map_of L lab = Some (Some opt) \<Longrightarrow> opt \<noteq> [] \<Longrightarrow>
   update_issue_status gh item (PROJECT_ID a) fid opt = Inl e \<Longrightarrow>
   loop_body a fid L gh n s =
     s\<lparr>calls := calls s @ [IssueViewLabels n, ProjectItems (OWNER a) (REPO a) n,
                            UpdateField item (PROJECT_ID a) fid opt],
       errors := errors s + 1\<rparr>"
  by (simp add: loop_body_def Let_def)

text \<open>Every iteration adds one to exactly one counter.\<close>

lemma loop_body_one_counter:
  "(updated (loop_body a fid L gh n s) = updated s + 1
      \<and> skipped (loop_body a fid L gh n s) = skipped s
      \<and> errors (loop_body a fid L gh n s) = errors s)
   \<or> (updated (loop_body a fid L gh n s) = updated s
      \<and> skipped (loop_body a fid L gh n s) = skipped s + 1
      \<and> errors (loop_body a fid L gh n s) = errors s)
   \<or> (updated (loop_body a fid L gh n s) = updated s
      \<and> skipped (loop_body a fid L gh n s) = skipped s
      \<and> errors (loop_body a fid L gh n s) = errors s + 1)"
  by (simp add: loop_body_def Let_def split: sum.splits option.splits)

lemma loop_body_calls:
  "\<exists>cs. calls (loop_body a fid L gh n s) = calls s @ IssueViewLabels n # cs"
  by (simp add: loop_body_def Let_def split: sum.splits option.splits)

text \<open>What an iteration adds to the counters does not depend on the state it starts from.\<close>

lemma loop_body_shift:
  "updated (loop_body a fid L gh n s) - updated s = updated (loop_body a fid L gh n t) - updated t"
  "skipped (loop_body a fid L gh n s) - skipped s = skipped (loop_body a fid L gh n t) - skipped t"
  "errors (loop_body a fid L gh n s) - errors s = errors (loop_body a fid L gh n t) - errors t"
  by (simp_all add: loop_body_def Let_def split: sum.splits option.splits)

subsection \<open>The loop\<close>

lemma main_loop_append:
  "main_loop a fid L gh (xs @ ys) s = main_loop a fid L gh ys (main_loop a fid L gh xs s)"
  by (induction xs arbitrary: s) simp_all

lemma main_loop_total:
  "updated (main_loop a fid L gh ns s) + skipped (main_loop a fid L gh ns s)
     + errors (main_loop a fid L gh ns s)
   = updated s + skipped s + errors s + int (length ns)"
proof (induction ns arbitrary: s)
  case Nil
  show ?case by simp
next
  case (Cons n ns)
  have "updated (loop_body a fid L gh n s) + skipped (loop_body a fid L gh n s)
      + errors (loop_body a fid L gh n s) = updated s + skipped s + errors s + 1"
    using loop_body_one_counter [of a fid L gh n s] by linarith
  with Cons [of "loop_body a fid L gh n s"] show ?case by simp
qed

lemma main_loop_mono:
  "updated s \<le> updated (main_loop a fid L gh ns s)
   \<and> skipped s \<le> skipped (main_loop a fid L gh ns s)
   \<and> errors s \<le> errors (main_loop a fid L gh ns s)"
proof (induction ns arbitrary: s)
  case Nil
  show ?case by simp
next
  case (Cons n ns)
  have "updated s \<le> updated (loop_body a fid L gh n s)
      \<and> skipped s \<le> skipped (loop_body a fid L gh n s)
      \<and> errors s \<le> errors (loop_body a fid L gh n s)"
    using loop_body_one_counter [of a fid L gh n s] by linarith
  with Cons [of "loop_body a fid L gh n s"] show ?case by force
qed

lemma main_loop_shift:
  "updated (main_loop a fid L gh ns s) - updated s
     = updated (main_loop a fid L gh ns t) - updated t
   \<and> skipped (main_loop a fid L gh ns s) - skipped s
     = skipped (main_loop a fid L gh ns t) - skipped t
   \<and> errors (main_loop a fid L gh ns s) - errors s
     = errors (main_loop a fid L gh ns t) - errors t"
proof (induction ns arbitrary: s t)
  case Nil
  show ?case by simp
next
  case (Cons n ns)
  from Cons [of "loop_body a fid L gh n s" "loop_body a fid L gh n t"]
    loop_body_shift [of a fid L gh n s t]
  show ?case by simp
qed

lemma main_loop_keeps_calls:
  "set (calls s) \<subseteq> set (calls (main_loop a fid L gh ns s))"
proof (induction ns arbitrary: s)
  case Nil
  show ?case by simp
next
  case (Cons n ns)
  obtain cs where "calls (loop_body a fid L gh n s) = calls s @ IssueViewLabels n # cs"
    using loop_body_calls by blast
  then have "set (calls s) \<subseteq> set (calls (loop_body a fid L gh n s))" by auto
  with Cons [of "loop_body a fid L gh n s"] show ?case by auto
qed

lemma main_loop_attempts:
  "n \<in> set ns \<Longrightarrow> IssueViewLabels n \<in> set (calls (main_loop a fid L gh ns s))"
proof (induction ns arbitrary: s)
  case Nil
  then show ?case by simp
next
  case (Cons m ns)
  show ?case
  proof (cases "n = m")
    case True
    obtain cs where "calls (loop_body a fid L gh m s) = calls s @ IssueViewLabels m # cs"
      using loop_body_calls by blast
    then have "IssueViewLabels m \<in> set (calls (loop_body a fid L gh m s))" by simp
    with True main_loop_keeps_calls [of "loop_body a fid L gh m s" a fid L gh ns]
    show ?thesis by auto
  next
    case False
    with Cons show ?thesis by simp
  qed
qed

lemma loop_body_agree:
  assumes "gh_issue_view_labels gh' n = gh_issue_view_labels gh n"
    and "gh_project_items gh' (OWNER a) (REPO a) n = gh_project_items gh (OWNER a) (REPO a) n"
    and "\<forall>item opt. get_project_item_id gh n (PROJECT_NUMBER a) (OWNER a) (REPO a) = Inr (Some item)
           \<longrightarrow> gh_update_field gh' item (PROJECT_ID a) fid opt =
               gh_update_field gh item (PROJECT_ID a) fid opt"
  shows "loop_body a fid L gh' n s = loop_body a fid L gh n s"
proof -
  have l: "get_issue_labels gh' n = get_issue_labels gh n"
    using assms(1) by (simp add: get_issue_labels_def)
  have i: "get_project_item_id gh' n (PROJECT_NUMBER a) (OWNER a) (REPO a) =
      get_project_item_id gh n (PROJECT_NUMBER a) (OWNER a) (REPO a)"
    using assms(2) by (simp add: get_project_item_id_def)
  have u: "update_issue_status gh' item (PROJECT_ID a) fid opt =
      update_issue_status gh item (PROJECT_ID a) fid opt"
    if "get_project_item_id gh n (PROJECT_NUMBER a) (OWNER a) (REPO a) = Inr (Some item)"
    for item opt
    using assms(3) that by (simp add: update_issue_status_def)
  show ?thesis
    unfolding loop_body_def Let_def l i
    by (auto split: sum.splits option.splits simp: u)
qed

lemma main_loop_agree:
  assumes "\<forall>n\<in>set ns. gh_issue_view_labels gh' n = gh_issue_view_labels gh n
      \<and> gh_project_items gh' (OWNER a) (REPO a) n = gh_project_items gh (OWNER a) (REPO a) n
      \<and> (\<forall>item opt. get_project_item_id gh n (PROJECT_NUMBER a) (OWNER a) (REPO a) = Inr (Some item)
           \<longrightarrow> gh_update_field gh' item (PROJECT_ID a) fid opt =
               gh_update_field gh item (PROJECT_ID a) fid opt)"
  shows "main_loop a fid L gh' ns s = main_loop a fid L gh ns s"
  using assms
proof (induction ns arbitrary: s)
  case Nil
  show ?case by simp
next
  case (Cons n ns)
  have "loop_body a fid L gh' n s = loop_body a fid L gh n s"
    using Cons.prems by (intro loop_body_agree) simp_all
  with Cons show ?case by simp
qed

subsection \<open>The five-issue run\<close>

lemma find_some: "\<exists>l\<in>set ls. P l \<Longrightarrow> \<exists>lab. find P ls = Some lab \<and> P lab"
  by (induction ls) auto

lemma first_item_none: "\<forall>x\<in>set nodes. snd x \<noteq> pn \<Longrightarrow> first_item nodes pn = None"
  by (induction nodes) auto

lemma status_label_nonempty: "map_of (LABEL_TO_STATUS om) lab \<noteq> None \<Longrightarrow> lab \<noteq> []"
  using label_to_status_keys [of om lab] by (cases lab) simp_all

text \<open>
  The end-to-end run of the specification over five issues, for every board that
  answers as that scenario says.
\<close>

lemma five_issue_scenario:
  assumes range: "START_ISSUE a = 1" "END_ISSUE a = 5"
    and field: "get_status_field_info gh (PROJECT_ID a) = Inr (Some sf)"
    and tbl: "L = LABEL_TO_STATUS (option_map_of (field_options sf) Map.empty)"
    and opt_b: "map_of L ''status:backlog'' = Some (Some ob)" "ob \<noteq> []"
    and opt_d: "map_of L ''status:done'' = Some (Some od)" "od \<noteq> []"
    and i1: "get_issue_labels gh 1 = Inr ls1" "''status:backlog'' \<in> set ls1"
      "''status:in-progress'' \<notin> set ls1" "''status:done'' \<notin> set ls1"
      "get_project_item_id gh 1 (PROJECT_NUMBER a) (OWNER a) (REPO a) = Inr (Some item1)"
      "item1 \<noteq> []" "update_issue_status gh item1 (PROJECT_ID a) (field_id sf) ob = Inr ()"
    and i2: "get_issue_labels gh 2 = Inr ls2" "''status:done'' \<in> set ls2"
      "''status:backlog'' \<notin> set ls2" "''status:in-progress'' \<notin> set ls2"
      "get_project_item_id gh 2 (PROJECT_NUMBER a) (OWNER a) (REPO a) = Inr (Some item2)"
      "item2 \<noteq> []" "update_issue_status gh item2 (PROJECT_ID a) (field_id sf) od = Inr ()"
    and i3: "get_issue_labels gh 3 = Inr ls3" "''status:backlog'' \<notin> set ls3"
      "''status:in-progress'' \<notin> set ls3" "''status:done'' \<notin> set ls3"
    and i4: "get_issue_labels gh 4 = Inr ls4"
      "''status:backlog'' \<in> set ls4 \<or> ''status:in-progress'' \<in> set ls4 \<or> ''status:done'' \<in> set ls4"
      "gh_project_items gh (OWNER a) (REPO a) 4 = Inr nodes4"
      "\<forall>x\<in>set nodes4. snd x \<noteq> PROJECT_NUMBER a"
    and i5: "get_issue_labels gh 5 = Inl e"
  shows "update_main gh a = Summary
      \<lparr>updated = 2, skipped = 1, errors = 2,
       calls = [IssueViewLabels 1, ProjectItems (OWNER a) (REPO a) 1,
                UpdateField item1 (PROJECT_ID a) (field_id sf) ob,
                IssueViewLabels 2, ProjectItems (OWNER a) (REPO a) 2,
                UpdateField item2 (PROJECT_ID a) (field_id sf) od,
                IssueViewLabels 3,
                IssueViewLabels 4, ProjectItems (OWNER a) (REPO a) 4,
                IssueViewLabels 5]\<rparr>"
proof -
  let ?P = "\<lambda>label. map_of L label \<noteq> None"
  let ?fid = "field_id sf"
  let ?body = "loop_body a ?fid L gh"
  have keys: "?P l \<longleftrightarrow> l = ''status:backlog'' \<or> l = ''status:in-progress'' \<or> l = ''status:done''"
    for l unfolding tbl by (rule label_to_status_keys)
  have pb: "?P ''status:backlog''" and pi: "?P ''status:in-progress''" and pd: "?P ''status:done''"
    using keys [of "''status:backlog''"] keys [of "''status:in-progress''"]
      keys [of "''status:done''"] by simp_all
  have u1: "\<forall>l\<in>set ls1. ?P l \<longrightarrow> l = ''status:backlog''"
  proof (intro ballI impI)
    fix l assume l: "l \<in> set ls1" and "?P l"
    then have "l = ''status:backlog'' \<or> l = ''status:in-progress'' \<or> l = ''status:done''"
      using keys [of l] by blast
    with l i1(3,4) show "l = ''status:backlog''" by blast
  qed
  have f1: "find ?P ls1 = Some ''status:backlog''"
    using i1(2) pb u1 by (rule find_single)
  have u2: "\<forall>l\<in>set ls2. ?P l \<longrightarrow> l = ''status:done''"
  proof (intro ballI impI)
    fix l assume l: "l \<in> set ls2" and "?P l"
    then have "l = ''status:backlog'' \<or> l = ''status:in-progress'' \<or> l = ''status:done''"
      using keys [of l] by blast
    with l i2(3,4) show "l = ''status:done''" by blast
  qed
  have f2: "find ?P ls2 = Some ''status:done''"
    using i2(2) pd u2 by (rule find_single)
  have u3: "\<forall>l\<in>set ls3. \<not> ?P l"
  proof
    fix l assume l: "l \<in> set ls3"
    show "\<not> ?P l"
    proof
      assume "?P l"
      then have "l = ''status:backlog'' \<or> l = ''status:in-progress'' \<or> l = ''status:done''"
        using keys [of l] by blast
      with l i3(2,3,4) show False by blast
    qed
  qed
  have f3: "find ?P ls3 = None"
    using u3 by (rule find_none)
  have e4: "\<exists>l\<in>set ls4. ?P l"
    using i4(2) pb pi pd by blast
  obtain lab4 where f4: "find ?P ls4 = Some lab4" and p4: "?P lab4"
    using find_some [OF e4] by blast
  from p4 have n4: "lab4 \<noteq> []" unfolding tbl by (rule status_label_nonempty)
  have g4: "get_project_item_id gh 4 (PROJECT_NUMBER a) (OWNER a) (REPO a) = Inr None"
    using i4(3) first_item_none [OF i4(4)] by (simp add: get_project_item_id_def)
  let ?s0 = "\<lparr>updated = 0, skipped = 0, errors = 0, calls = []\<rparr>"
  let ?c1 = "[IssueViewLabels 1, ProjectItems (OWNER a) (REPO a) 1,
              UpdateField item1 (PROJECT_ID a) ?fid ob]"
  let ?c2 = "[IssueViewLabels 1, ProjectItems (OWNER a) (REPO a) 1,
              UpdateField item1 (PROJECT_ID a) ?fid ob,
              IssueViewLabels 2, ProjectItems (OWNER a) (REPO a) 2,
              UpdateField item2 (PROJECT_ID a) ?fid od]"
  let ?c3 = "[IssueViewLabels 1, ProjectItems (OWNER a) (REPO a) 1,
              UpdateField item1 (PROJECT_ID a) ?fid ob,
              IssueViewLabels 2, ProjectItems (OWNER a) (REPO a) 2,
              UpdateField item2 (PROJECT_ID a) ?fid od,
              IssueViewLabels 3]"
  let ?c4 = "[IssueViewLabels 1, ProjectItems (OWNER a) (REPO a) 1,
              UpdateField item1 (PROJECT_ID a) ?fid ob,
              IssueViewLabels 2, ProjectItems (OWNER a) (REPO a) 2,
              UpdateField item2 (PROJECT_ID a) ?fid od,
              IssueViewLabels 3,
              IssueViewLabels 4, ProjectItems (OWNER a) (REPO a) 4]"
  let ?c5 = "[IssueViewLabels 1, ProjectItems (OWNER a) (REPO a) 1,
              UpdateField item1 (PROJECT_ID a) ?fid ob,
              IssueViewLabels 2, ProjectItems (OWNER a) (REPO a) 2,
              UpdateField item2 (PROJECT_ID a) ?fid od,
              IssueViewLabels 3,
              IssueViewLabels 4, ProjectItems (OWNER a) (REPO a) 4,
              IssueViewLabels 5]"
  let ?s1 = "\<lparr>updated = 1, skipped = 0, errors = 0, calls = ?c1\<rparr>"
  let ?s2 = "\<lparr>updated = 2, skipped = 0, errors = 0, calls = ?c2\<rparr>"
  let ?s3 = "\<lparr>updated = 2, skipped = 1, errors = 0, calls = ?c3\<rparr>"
  let ?s4 = "\<lparr>updated = 2, skipped = 1, errors = 1, calls = ?c4\<rparr>"
  let ?s5 = "\<lparr>updated = 2, skipped = 1, errors = 2, calls = ?c5\<rparr>"
  have b1: "?body 1 ?s0 = ?s1"
    using loop_body_updated [OF i1(1) f1 _ i1(5) i1(6) opt_b i1(7), where s = "?s0"]
    by simp
  have b2: "?body 2 ?s1 = ?s2"
    using loop_body_updated [OF i2(1) f2 _ i2(5) i2(6) opt_d i2(7), where s = "?s1"]
    by simp
  have b3: "?body 3 ?s2 = ?s3"
    using loop_body_skipped [OF i3(1) f3, where s = "?s2" and a = a and fid = "?fid"] by simp
  have b4: "?body 4 ?s3 = ?s4"
    using loop_body_no_item [OF i4(1) f4 n4 g4, where s = "?s3" and fid = "?fid"] by simp
  have b5: "?body 5 ?s4 = ?s5"
    using loop_body_fetch_error [OF i5, where s = "?s4" and a = a and fid = "?fid" and L = L] by simp
  have "main_loop a ?fid L gh [1, 2, 3, 4, 5] ?s0 = ?s5"
    by (simp add: b1 b2 b3 b4 b5)
  then show ?thesis
    unfolding update_main_def Let_def field range upto_1_5 tbl by simp
qed

lemma no_status_label:
  assumes "''status:backlog'' \<notin> set ls" "''status:in-progress'' \<notin> set ls"
    "''status:done'' \<notin> set ls"
  shows "find (\<lambda>label. map_of (LABEL_TO_STATUS om) label \<noteq> None) ls = None"
proof (rule find_none, rule ballI)
  fix l assume l: "l \<in> set ls"
  show "\<not> map_of (LABEL_TO_STATUS om) l \<noteq> None"
  proof
    assume "map_of (LABEL_TO_STATUS om) l \<noteq> None"
    then have "l = ''status:backlog'' \<or> l = ''status:in-progress'' \<or> l = ''status:done''"
      using label_to_status_keys [of om l] by blast
    with l assms show False by blast
  qed
qed

lemma some_status_label:
  assumes "''status:backlog'' \<in> set ls \<or> ''status:in-progress'' \<in> set ls
      \<or> ''status:done'' \<in> set ls"
  shows "\<exists>lab. find (\<lambda>label. map_of (LABEL_TO_STATUS om) label \<noteq> None) ls = Some lab
      \<and> lab \<noteq> []"
proof -
  let ?P = "\<lambda>label. map_of (LABEL_TO_STATUS om) label \<noteq> None"
  have "?P ''status:backlog''" "?P ''status:in-progress''" "?P ''status:done''"
    using label_to_status_keys [of om "''status:backlog''"]
      label_to_status_keys [of om "''status:in-progress''"]
      label_to_status_keys [of om "''status:done''"] by simp_all
  with assms have "\<exists>l\<in>set ls. ?P l" by blast
  then obtain lab where "find ?P ls = Some lab" and "?P lab"
    using find_some [of ls ?P] by blast
  moreover from \<open>?P lab\<close> have "lab \<noteq> []" by (rule status_label_nonempty)
  ultimately show ?thesis by blast
qed

lemma loop_body_no_status_label:
  assumes "get_issue_labels gh n = Inr ls"
    and "''status:backlog'' \<notin> set ls" "''status:in-progress'' \<notin> set ls"
      "''status:done'' \<notin> set ls"
  shows "loop_body a fid (LABEL_TO_STATUS om) gh n s =
     s\<lparr>calls := calls s @ [IssueViewLabels n], skipped := skipped s + 1\<rparr>"
  using assms(1) no_status_label [OF assms(2,3,4)] by (rule loop_body_skipped)

lemma loop_body_missing_item:
  assumes "get_issue_labels gh n = Inr ls"
    and "''status:backlog'' \<in> set ls \<or> ''status:in-progress'' \<in> set ls
      \<or> ''status:done'' \<in> set ls"
    and "gh_project_items gh (OWNER a) (REPO a) n = Inr nodes"
    and "\<forall>x\<in>set nodes. snd x \<noteq> PROJECT_NUMBER a"
  shows "loop_body a fid (LABEL_TO_STATUS om) gh n s =
     s\<lparr>calls := calls s @ [IssueViewLabels n, ProjectItems (OWNER a) (REPO a) n],
       errors := errors s + 1\<rparr>"
proof -
  obtain lab where f: "find (\<lambda>label. map_of (LABEL_TO_STATUS om) label \<noteq> None) ls = Some lab"
    and n: "lab \<noteq> []"
    using some_status_label [OF assms(2)] by blast
  have g: "get_project_item_id gh n (PROJECT_NUMBER a) (OWNER a) (REPO a) = Inr None"
    using assms(3) first_item_none [OF assms(4)] by (simp add: get_project_item_id_def)
  show ?thesis using assms(1) f n g by (rule loop_body_no_item)
qed

text \<open>
  C1. For a run over the issues 1 to 5 in which issue 1 carries \<^verbatim>\<open>status:backlog\<close> and
  issue 2 carries \<^verbatim>\<open>status:done\<close> (each with a board item of the configured project, an
  option the board resolves and an update that succeeds), issue 3 carries no status
  label, issue 4 carries a status label but none of its board items belongs to the
  configured project, and the label fetch of issue 5 raises, the summary is
  updated = 2, skipped = 1, errors = 2, and the only field updates attempted are those
  of issues 1 and 2. In every run, an issue without a status label adds one to
  \<^verbatim>\<open>skipped\<close> after the label fetch alone, with no update attempted, and an issue with a
  status label and no matching board item adds one to \<^verbatim>\<open>errors\<close>.
\<close>

theorem five_issue_run:
  assumes "START_ISSUE a = 1" "END_ISSUE a = 5"
    and "get_status_field_info gh (PROJECT_ID a) = Inr (Some sf)"
    and "L = LABEL_TO_STATUS (option_map_of (field_options sf) Map.empty)"
    and "map_of L ''status:backlog'' = Some (Some ob)" "ob \<noteq> []"
    and "map_of L ''status:done'' = Some (Some od)" "od \<noteq> []"
    and "get_issue_labels gh 1 = Inr ls1" "''status:backlog'' \<in> set ls1"
      "''status:in-progress'' \<notin> set ls1" "''status:done'' \<notin> set ls1"
      "get_project_item_id gh 1 (PROJECT_NUMBER a) (OWNER a) (REPO a) = Inr (Some item1)"
      "item1 \<noteq> []" "update_issue_status gh item1 (PROJECT_ID a) (field_id sf) ob = Inr ()"
    and "get_issue_labels gh 2 = Inr ls2" "''status:done'' \<in> set ls2"
      "''status:backlog'' \<notin> set ls2" "''status:in-progress'' \<notin> set ls2"
      "get_project_item_id gh 2 (PROJECT_NUMBER a) (OWNER a) (REPO a) = Inr (Some item2)"
      "item2 \<noteq> []" "update_issue_status gh item2 (PROJECT_ID a) (field_id sf) od = Inr ()"
    and "get_issue_labels gh 3 = Inr ls3" "''status:backlog'' \<notin> set ls3"
      "''status:in-progress'' \<notin> set ls3" "''status:done'' \<notin> set ls3"
    and "get_issue_labels gh 4 = Inr ls4"
      "''status:backlog'' \<in> set ls4 \<or> ''status:in-progress'' \<in> set ls4 \<or> ''status:done'' \<in> set ls4"
      "gh_project_items gh (OWNER a) (REPO a) 4 = Inr nodes4"
      "\<forall>x\<in>set nodes4. snd x \<noteq> PROJECT_NUMBER a"
    and "get_issue_labels gh 5 = Inl e"
  shows "update_main gh a = Summary
      \<lparr>updated = 2, skipped = 1, errors = 2,
       calls = [IssueViewLabels 1, ProjectItems (OWNER a) (REPO a) 1,
                UpdateField item1 (PROJECT_ID a) (field_id sf) ob,
                IssueViewLabels 2, ProjectItems (OWNER a) (REPO a) 2,
                UpdateField item2 (PROJECT_ID a) (field_id sf) od,
                IssueViewLabels 3,
                IssueViewLabels 4, ProjectItems (OWNER a) (REPO a) 4,
                IssueViewLabels 5]\<rparr>
    \<and> (\<forall>n s ls. get_issue_labels gh n = Inr ls \<and> ''status:backlog'' \<notin> set ls
          \<and> ''status:in-progress'' \<notin> set ls \<and> ''status:done'' \<notin> set ls
        \<longrightarrow> loop_body a (field_id sf) L gh n s =
            s\<lparr>calls := calls s @ [IssueViewLabels n], skipped := skipped s + 1\<rparr>)
    \<and> (\<forall>n s ls nodes. get_issue_labels gh n = Inr ls
          \<and> (''status:backlog'' \<in> set ls \<or> ''status:in-progress'' \<in> set ls
               \<or> ''status:done'' \<in> set ls)
          \<and> gh_project_items gh (OWNER a) (REPO a) n = Inr nodes
          \<and> (\<forall>x\<in>set nodes. snd x \<noteq> PROJECT_NUMBER a)
        \<longrightarrow> loop_body a (field_id sf) L gh n s =
            s\<lparr>calls := calls s @ [IssueViewLabels n, ProjectItems (OWNER a) (REPO a) n],
              errors := errors s + 1\<rparr>)"
proof (intro conjI allI impI)
  show "update_main gh a = Summary
      \<lparr>updated = 2, skipped = 1, errors = 2,
       calls = [IssueViewLabels 1, ProjectItems (OWNER a) (REPO a) 1,
                UpdateField item1 (PROJECT_ID a) (field_id sf) ob,
                IssueViewLabels 2, ProjectItems (OWNER a) (REPO a) 2,
                UpdateField item2 (PROJECT_ID a) (field_id sf) od,
                IssueViewLabels 3,
                IssueViewLabels 4, ProjectItems (OWNER a) (REPO a) 4,
                IssueViewLabels 5]\<rparr>"
    using assms by (rule five_issue_scenario)
next
  fix n s ls
  assume "get_issue_labels gh n = Inr ls \<and> ''status:backlog'' \<notin> set ls
          \<and> ''status:in-progress'' \<notin> set ls \<and> ''status:done'' \<notin> set ls"
  then show "loop_body a (field_id sf) L gh n s =
            s\<lparr>calls := calls s @ [IssueViewLabels n], skipped := skipped s + 1\<rparr>"
    unfolding assms(4) by (intro loop_body_no_status_label) blast+
next
  fix n s ls nodes
  assume "get_issue_labels gh n = Inr ls
          \<and> (''status:backlog'' \<in> set ls \<or> ''status:in-progress'' \<in> set ls
               \<or> ''status:done'' \<in> set ls)
          \<and> gh_project_items gh (OWNER a) (REPO a) n = Inr nodes
          \<and> (\<forall>x\<in>set nodes. snd x \<noteq> PROJECT_NUMBER a)"
  then show "loop_body a (field_id sf) L gh n s =
            s\<lparr>calls := calls s @ [IssueViewLabels n, ProjectItems (OWNER a) (REPO a) n],
              errors := errors s + 1\<rparr>"
    unfolding assms(4) by (intro loop_body_missing_item) blast+
qed


text \<open>The example board answers in this way.\<close>

lemma board_example_setup:
  "START_ISSUE args_example = 1" "END_ISSUE args_example = 5"
  "PROJECT_ID args_example = ''PVT_1''" "PROJECT_NUMBER args_example = 4"
  "OWNER args_example = ''acme''" "REPO args_example = ''shop''"
  "field_id field_example = ''PVTSSF_1''"
  "get_status_field_info board_example ''PVT_1'' = Inr (Some field_example)"
  by (simp_all add: args_example_def board_example_def field_example_def
      get_status_field_info_def)

lemma board_example_options:
  "map_of (LABEL_TO_STATUS (option_map_of (field_options field_example) Map.empty))
     ''status:backlog'' = Some (Some ''opt_todo'')"
  "map_of (LABEL_TO_STATUS (option_map_of (field_options field_example) Map.empty))
     ''status:done'' = Some (Some ''opt_done'')"
  by (simp_all add: LABEL_TO_STATUS_def field_example_def py_or_def truthy_def)

lemma board_example_labels:
  "get_issue_labels board_example 1 = Inr [''type:bug'', ''status:backlog'']"
  "get_issue_labels board_example 2 = Inr [''status:done'']"
  "get_issue_labels board_example 3 = Inr [''type:docs'']"
  "get_issue_labels board_example 4 = Inr [''status:in-progress'']"
  "get_issue_labels board_example 5 = Inl (CalledProcessError ''HTTP 502'')"
  by (simp_all add: get_issue_labels_def board_example_def)

lemma board_example_items:
  "get_project_item_id board_example 1 4 ''acme'' ''shop'' = Inr (Some ''PVTI_1'')"
  "get_project_item_id board_example 2 4 ''acme'' ''shop'' = Inr (Some ''PVTI_2'')"
  "gh_project_items board_example ''acme'' ''shop'' 4 = Inr [(''PVTI_4'', 7)]"
  "update_issue_status board_example item ''PVT_1'' ''PVTSSF_1'' opt = Inr ()"
  by (simp_all add: get_project_item_id_def update_issue_status_def board_example_def)

lemma update_main_example: "update_main board_example args_example = Summary final_example"
proof -
  have "update_main board_example args_example = Summary
      \<lparr>updated = 2, skipped = 1, errors = 2,
       calls = [IssueViewLabels 1, ProjectItems (OWNER args_example) (REPO args_example) 1,
                UpdateField ''PVTI_1'' (PROJECT_ID args_example) (field_id field_example) ''opt_todo'',
                IssueViewLabels 2, ProjectItems (OWNER args_example) (REPO args_example) 2,
                UpdateField ''PVTI_2'' (PROJECT_ID args_example) (field_id field_example) ''opt_done'',
                IssueViewLabels 3,
                IssueViewLabels 4, ProjectItems (OWNER args_example) (REPO args_example) 4,
                IssueViewLabels 5]\<rparr>"
    by (rule five_issue_scenario [where ?ls1.0 = "[''type:bug'', ''status:backlog'']"
          and ?ls2.0 = "[''status:done'']" and ?ls3.0 = "[''type:docs'']"
          and ?ls4.0 = "[''status:in-progress'']" and ?nodes4.0 = "[(''PVTI_4'', 7)]"
          and e = "CalledProcessError ''HTTP 502''"
          and L = "LABEL_TO_STATUS (option_map_of (field_options field_example) Map.empty)"])
      (simp_all add: board_example_setup board_example_options board_example_labels
        board_example_items)
  then show ?thesis by (simp add: board_example_setup final_example_def)
qed

theorem five_issue_run_witness:
  "get_issue_labels board_example 1 = Inr [''type:bug'', ''status:backlog'']
   \<and> get_issue_labels board_example 2 = Inr [''status:done'']
   \<and> get_issue_labels board_example 3 = Inr [''type:docs'']
   \<and> get_issue_labels board_example 4 = Inr [''status:in-progress'']
   \<and> get_issue_labels board_example 5 = Inl (CalledProcessError ''HTTP 502'')
   \<and> get_project_item_id board_example 1 4 ''acme'' ''shop'' = Inr (Some ''PVTI_1'')
   \<and> get_project_item_id board_example 2 4 ''acme'' ''shop'' = Inr (Some ''PVTI_2'')
   \<and> gh_project_items board_example ''acme'' ''shop'' 4 = Inr [(''PVTI_4'', 7)]
   \<and> update_main board_example args_example = Summary
       \<lparr>updated = 2, skipped = 1, errors = 2,
        calls = [IssueViewLabels 1, ProjectItems ''acme'' ''shop'' 1,
                 UpdateField ''PVTI_1'' ''PVT_1'' ''PVTSSF_1'' ''opt_todo'',
                 IssueViewLabels 2, ProjectItems ''acme'' ''shop'' 2,
                 UpdateField ''PVTI_2'' ''PVT_1'' ''PVTSSF_1'' ''opt_done'',
                 IssueViewLabels 3,
                 IssueViewLabels 4, ProjectItems ''acme'' ''shop'' 4,
                 IssueViewLabels 5]\<rparr>"
proof -
  have "update_main board_example args_example = Summary
      \<lparr>updated = 2, skipped = 1, errors = 2,
       calls = [IssueViewLabels 1, ProjectItems (OWNER args_example) (REPO args_example) 1,
                UpdateField ''PVTI_1'' (PROJECT_ID args_example) (field_id field_example) ''opt_todo'',
                IssueViewLabels 2, ProjectItems (OWNER args_example) (REPO args_example) 2,
                UpdateField ''PVTI_2'' (PROJECT_ID args_example) (field_id field_example) ''opt_done'',
                IssueViewLabels 3,
                IssueViewLabels 4, ProjectItems (OWNER args_example) (REPO args_example) 4,
                IssueViewLabels 5]\<rparr>"
    by (rule five_issue_run [where ?ls1.0 = "[''type:bug'', ''status:backlog'']"
          and ?ls2.0 = "[''status:done'']" and ?ls3.0 = "[''type:docs'']"
          and ?ls4.0 = "[''status:in-progress'']" and ?nodes4.0 = "[(''PVTI_4'', 7)]"
          and e = "CalledProcessError ''HTTP 502''"
          and L = "LABEL_TO_STATUS (option_map_of (field_options field_example) Map.empty)",
          THEN conjunct1])
      (simp_all add: board_example_setup board_example_options board_example_labels
        board_example_items)
  then have "update_main board_example args_example = Summary
       \<lparr>updated = 2, skipped = 1, errors = 2,
        calls = [IssueViewLabels 1, ProjectItems ''acme'' ''shop'' 1,
                 UpdateField ''PVTI_1'' ''PVT_1'' ''PVTSSF_1'' ''opt_todo'',
                 IssueViewLabels 2, ProjectItems ''acme'' ''shop'' 2,
                 UpdateField ''PVTI_2'' ''PVT_1'' ''PVTSSF_1'' ''opt_done'',
                 IssueViewLabels 3,
                 IssueViewLabels 4, ProjectItems ''acme'' ''shop'' 4,
                 IssueViewLabels 5]\<rparr>"
    by (simp add: board_example_setup)
  with board_example_labels board_example_items(1,2,3) show ?thesis by blast
qed

subsection \<open>The counters\<close>

lemma range_total:
  "updated (main_loop a fid L gh [i..j] \<lparr>updated = 0, skipped = 0, errors = 0, calls = []\<rparr>)
   + skipped (main_loop a fid L gh [i..j] \<lparr>updated = 0, skipped = 0, errors = 0, calls = []\<rparr>)
   + errors (main_loop a fid L gh [i..j] \<lparr>updated = 0, skipped = 0, errors = 0, calls = []\<rparr>)
   = (if j < i then 0 else j - i + 1)"
  using main_loop_total [of a fid L gh "[i..j]" "\<lparr>updated = 0, skipped = 0, errors = 0, calls = []\<rparr>"]
  by simp

lemma prefix_mono:
  assumes "j \<le> k"
  shows "updated (main_loop a fid L gh (take j ns) s) \<le> updated (main_loop a fid L gh (take k ns) s)
    \<and> skipped (main_loop a fid L gh (take j ns) s) \<le> skipped (main_loop a fid L gh (take k ns) s)
    \<and> errors (main_loop a fid L gh (take j ns) s) \<le> errors (main_loop a fid L gh (take k ns) s)"
proof -
  have "take k ns = take j ns @ drop j (take k ns)"
    using assms append_take_drop_id [of j "take k ns"] by (simp add: min_def)
  then have "main_loop a fid L gh (take k ns) s =
      main_loop a fid L gh (drop j (take k ns)) (main_loop a fid L gh (take j ns) s)"
    using main_loop_append [of a fid L gh "take j ns" "drop j (take k ns)" s] by simp
  then show ?thesis
    using main_loop_mono [of "main_loop a fid L gh (take j ns) s" a fid L gh "drop j (take k ns)"]
    by simp
qed

text \<open>
  C10. In a run over the inclusive range from \<^verbatim>\<open>START_ISSUE\<close> to \<^verbatim>\<open>END_ISSUE\<close> every
  iteration adds one to exactly one of the three counters and leaves the other two as
  they are; at the end of the run updated + skipped + errors is the number of issues
  in the range (\<^verbatim>\<open>END_ISSUE - START_ISSUE + 1\<close>, or 0 for an empty range), for the loop
  and so for the summary of \<^verbatim>\<open>main\<close>; and no counter ever decreases: after the first
  \<open>j\<close> issues each counter is at most what it is after the first \<open>k\<close>, for \<open>j \<le> k\<close>.
\<close>

theorem counters_cover_range:
  "(\<forall>n s.
      (updated (loop_body a fid L gh n s) = updated s + 1
        \<and> skipped (loop_body a fid L gh n s) = skipped s
        \<and> errors (loop_body a fid L gh n s) = errors s)
      \<or> (updated (loop_body a fid L gh n s) = updated s
        \<and> skipped (loop_body a fid L gh n s) = skipped s + 1
        \<and> errors (loop_body a fid L gh n s) = errors s)
      \<or> (updated (loop_body a fid L gh n s) = updated s
        \<and> skipped (loop_body a fid L gh n s) = skipped s
        \<and> errors (loop_body a fid L gh n s) = errors s + 1))
   \<and> updated (main_loop a fid L gh [START_ISSUE a..END_ISSUE a]
          \<lparr>updated = 0, skipped = 0, errors = 0, calls = []\<rparr>)
     + skipped (main_loop a fid L gh [START_ISSUE a..END_ISSUE a]
          \<lparr>updated = 0, skipped = 0, errors = 0, calls = []\<rparr>)
     + errors (main_loop a fid L gh [START_ISSUE a..END_ISSUE a]
          \<lparr>updated = 0, skipped = 0, errors = 0, calls = []\<rparr>)
     = (if END_ISSUE a < START_ISSUE a then 0 else END_ISSUE a - START_ISSUE a + 1)
   \<and> (\<forall>j k. j \<le> k \<longrightarrow>
        updated (main_loop a fid L gh (take j [START_ISSUE a..END_ISSUE a])
                   \<lparr>updated = 0, skipped = 0, errors = 0, calls = []\<rparr>)
          \<le> updated (main_loop a fid L gh (take k [START_ISSUE a..END_ISSUE a])
                   \<lparr>updated = 0, skipped = 0, errors = 0, calls = []\<rparr>)
        \<and> skipped (main_loop a fid L gh (take j [START_ISSUE a..END_ISSUE a])
                   \<lparr>updated = 0, skipped = 0, errors = 0, calls = []\<rparr>)
          \<le> skipped (main_loop a fid L gh (take k [START_ISSUE a..END_ISSUE a])
                   \<lparr>updated = 0, skipped = 0, errors = 0, calls = []\<rparr>)
        \<and> errors (main_loop a fid L gh (take j [START_ISSUE a..END_ISSUE a])
                   \<lparr>updated = 0, skipped = 0, errors = 0, calls = []\<rparr>)
          \<le> errors (main_loop a fid L gh (take k [START_ISSUE a..END_ISSUE a])
                   \<lparr>updated = 0, skipped = 0, errors = 0, calls = []\<rparr>))
   \<and> (\<forall>s. update_main gh a = Summary s \<longrightarrow>
        updated s + skipped s + errors s =
          (if END_ISSUE a < START_ISSUE a then 0 else END_ISSUE a - START_ISSUE a + 1))"
proof (intro conjI allI impI)
  fix n s
  show "(updated (loop_body a fid L gh n s) = updated s + 1
        \<and> skipped (loop_body a fid L gh n s) = skipped s
        \<and> errors (loop_body a fid L gh n s) = errors s)
      \<or> (updated (loop_body a fid L gh n s) = updated s
        \<and> skipped (loop_body a fid L gh n s) = skipped s + 1
        \<and> errors (loop_body a fid L gh n s) = errors s)
      \<or> (updated (loop_body a fid L gh n s) = updated s
        \<and> skipped (loop_body a fid L gh n s) = skipped s
        \<and> errors (loop_body a fid L gh n s) = errors s + 1)"
    by (rule loop_body_one_counter)
next
  show "updated (main_loop a fid L gh [START_ISSUE a..END_ISSUE a]
          \<lparr>updated = 0, skipped = 0, errors = 0, calls = []\<rparr>)
     + skipped (main_loop a fid L gh [START_ISSUE a..END_ISSUE a]
          \<lparr>updated = 0, skipped = 0, errors = 0, calls = []\<rparr>)
     + errors (main_loop a fid L gh [START_ISSUE a..END_ISSUE a]
          \<lparr>updated = 0, skipped = 0, errors = 0, calls = []\<rparr>)
     = (if END_ISSUE a < START_ISSUE a then 0 else END_ISSUE a - START_ISSUE a + 1)"
    by (rule range_total)
next
  fix j k :: nat
  assume jk: "j \<le> k"
  let ?r = "[START_ISSUE a..END_ISSUE a]"
  let ?s0 = "\<lparr>updated = 0, skipped = 0, errors = 0, calls = []\<rparr>"
  note m = prefix_mono [OF jk, of a fid L gh ?r ?s0]
  from m show "updated (main_loop a fid L gh (take j ?r) ?s0)
      \<le> updated (main_loop a fid L gh (take k ?r) ?s0)" by blast
  from m show "skipped (main_loop a fid L gh (take j ?r) ?s0)
      \<le> skipped (main_loop a fid L gh (take k ?r) ?s0)" by blast
  from m show "errors (main_loop a fid L gh (take j ?r) ?s0)
      \<le> errors (main_loop a fid L gh (take k ?r) ?s0)" by blast
next
  fix s
  assume u: "update_main gh a = Summary s"
  show "updated s + skipped s + errors s =
      (if END_ISSUE a < START_ISSUE a then 0 else END_ISSUE a - START_ISSUE a + 1)"
  proof (cases "get_status_field_info gh (PROJECT_ID a)")
    case (Inl e)
    with u show ?thesis by (simp add: update_main_def)
  next
    case (Inr found)
    show ?thesis
    proof (cases found)
      case None
      with u Inr show ?thesis by (simp add: update_main_def)
    next
      case (Some sf)
      with u Inr have "s = main_loop a (field_id sf)
          (LABEL_TO_STATUS (option_map_of (field_options sf) Map.empty)) gh
          [START_ISSUE a..END_ISSUE a] \<lparr>updated = 0, skipped = 0, errors = 0, calls = []\<rparr>"
        by (simp add: update_main_def Let_def)
      then show ?thesis using range_total by blast
    qed
  qed
qed

theorem counters_cover_range_witness:
  "update_main board_example args_example = Summary final_example
   \<and> updated final_example + skipped final_example + errors final_example = 5
   \<and> updated (main_loop args_example ''PVTSSF_1''
        (LABEL_TO_STATUS (option_map_of (field_options field_example) Map.empty)) board_example
        (take 2 [START_ISSUE args_example..END_ISSUE args_example])
        \<lparr>updated = 0, skipped = 0, errors = 0, calls = []\<rparr>)
     \<le> updated (main_loop args_example ''PVTSSF_1''
        (LABEL_TO_STATUS (option_map_of (field_options field_example) Map.empty)) board_example
        (take 4 [START_ISSUE args_example..END_ISSUE args_example])
        \<lparr>updated = 0, skipped = 0, errors = 0, calls = []\<rparr>)"
proof -
  note t = counters_cover_range [of args_example "''PVTSSF_1''"
      "LABEL_TO_STATUS (option_map_of (field_options field_example) Map.empty)" board_example]
  from t update_main_example
  have "updated final_example + skipped final_example + errors final_example =
      (if END_ISSUE args_example < START_ISSUE args_example then 0
       else END_ISSUE args_example - START_ISSUE args_example + 1)"
    by blast
  then have a: "updated final_example + skipped final_example + errors final_example = 5"
    by (simp add: board_example_setup)
  have "(2::nat) \<le> 4" by simp
  with t have b: "updated (main_loop args_example ''PVTSSF_1''
        (LABEL_TO_STATUS (option_map_of (field_options field_example) Map.empty)) board_example
        (take 2 [START_ISSUE args_example..END_ISSUE args_example])
        \<lparr>updated = 0, skipped = 0, errors = 0, calls = []\<rparr>)
     \<le> updated (main_loop args_example ''PVTSSF_1''
        (LABEL_TO_STATUS (option_map_of (field_options field_example) Map.empty)) board_example
        (take 4 [START_ISSUE args_example..END_ISSUE args_example])
        \<lparr>updated = 0, skipped = 0, errors = 0, calls = []\<rparr>)"
    by blast
  from update_main_example a b show ?thesis by blast
qed

subsection \<open>Fault isolation\<close>

text \<open>What the issues after a prefix add to the counters, from any state.\<close>

lemma later_contribution:
  "updated (main_loop a fid L gh (pre @ post) s) - updated (main_loop a fid L gh pre s)
     = updated (main_loop a fid L gh post t) - updated t
   \<and> skipped (main_loop a fid L gh (pre @ post) s) - skipped (main_loop a fid L gh pre s)
     = skipped (main_loop a fid L gh post t) - skipped t
   \<and> errors (main_loop a fid L gh (pre @ post) s) - errors (main_loop a fid L gh pre s)
     = errors (main_loop a fid L gh post t) - errors t"
  using main_loop_shift [of a fid L gh post "main_loop a fid L gh pre s" t]
  by (simp add: main_loop_append)

text \<open>
  C2. For every issue range and every issue \<open>N\<close> in it: if an external call made for
  issue \<open>N\<close> fails (the label fetch, the board-item lookup or the field update), the
  failure is caught, the iteration adds one to the error count and nothing to the
  other two counters, and the loop goes on with the issues after \<open>N\<close>, fetching the
  labels of every one of them. What the issues after \<open>N\<close> add to \<^verbatim>\<open>updated\<close> and
  \<^verbatim>\<open>skipped\<close> is what they add on any board \<open>gh'\<close> that answers the calls for the later
  issues in the same way, whatever it answers for issue \<open>N\<close>, so also one on which the
  calls for issue \<open>N\<close> succeed.
\<close>

theorem failure_is_isolated:
  assumes "START_ISSUE a \<le> N" and "N \<le> END_ISSUE a"
    and "(\<exists>e. get_issue_labels gh N = Inl e)
      \<or> (\<exists>ls lab e. get_issue_labels gh N = Inr ls
            \<and> find (\<lambda>label. map_of L label \<noteq> None) ls = Some lab \<and> lab \<noteq> []
            \<and> get_project_item_id gh N (PROJECT_NUMBER a) (OWNER a) (REPO a) = Inl e)
      \<or> (\<exists>ls lab item opt e. get_issue_labels gh N = Inr ls
            \<and> find (\<lambda>label. map_of L label \<noteq> None) ls = Some lab \<and> lab \<noteq> []
            \<and> get_project_item_id gh N (PROJECT_NUMBER a) (OWNER a) (REPO a) = Inr (Some item)
            \<and> item \<noteq> [] \<and> map_of L lab = Some (Some opt) \<and> opt \<noteq> []
            \<and> update_issue_status gh item (PROJECT_ID a) fid opt = Inl e)"
    and "\<forall>m. N < m \<longrightarrow>
          gh_issue_view_labels gh' m = gh_issue_view_labels gh m
          \<and> gh_project_items gh' (OWNER a) (REPO a) m = gh_project_items gh (OWNER a) (REPO a) m
          \<and> (\<forall>item opt.
                get_project_item_id gh m (PROJECT_NUMBER a) (OWNER a) (REPO a) = Inr (Some item)
                \<longrightarrow> gh_update_field gh' item (PROJECT_ID a) fid opt =
                    gh_update_field gh item (PROJECT_ID a) fid opt)"
  shows "(\<forall>s. errors (loop_body a fid L gh N s) = errors s + 1
            \<and> updated (loop_body a fid L gh N s) = updated s
            \<and> skipped (loop_body a fid L gh N s) = skipped s)
    \<and> main_loop a fid L gh [START_ISSUE a..END_ISSUE a]
          \<lparr>updated = 0, skipped = 0, errors = 0, calls = []\<rparr> =
        main_loop a fid L gh [N + 1..END_ISSUE a]
          (loop_body a fid L gh N
            (main_loop a fid L gh [START_ISSUE a..N - 1]
              \<lparr>updated = 0, skipped = 0, errors = 0, calls = []\<rparr>))
    \<and> (\<forall>m. N < m \<and> m \<le> END_ISSUE a \<longrightarrow>
          IssueViewLabels m \<in> set (calls (main_loop a fid L gh [START_ISSUE a..END_ISSUE a]
            \<lparr>updated = 0, skipped = 0, errors = 0, calls = []\<rparr>)))
    \<and> updated (main_loop a fid L gh [START_ISSUE a..END_ISSUE a]
          \<lparr>updated = 0, skipped = 0, errors = 0, calls = []\<rparr>)
        - updated (main_loop a fid L gh [START_ISSUE a..N]
          \<lparr>updated = 0, skipped = 0, errors = 0, calls = []\<rparr>)
      = updated (main_loop a fid L gh' [START_ISSUE a..END_ISSUE a]
          \<lparr>updated = 0, skipped = 0, errors = 0, calls = []\<rparr>)
        - updated (main_loop a fid L gh' [START_ISSUE a..N]
          \<lparr>updated = 0, skipped = 0, errors = 0, calls = []\<rparr>)
    \<and> skipped (main_loop a fid L gh [START_ISSUE a..END_ISSUE a]
          \<lparr>updated = 0, skipped = 0, errors = 0, calls = []\<rparr>)
        - skipped (main_loop a fid L gh [START_ISSUE a..N]
          \<lparr>updated = 0, skipped = 0, errors = 0, calls = []\<rparr>)
      = skipped (main_loop a fid L gh' [START_ISSUE a..END_ISSUE a]
          \<lparr>updated = 0, skipped = 0, errors = 0, calls = []\<rparr>)
        - skipped (main_loop a fid L gh' [START_ISSUE a..N]
          \<lparr>updated = 0, skipped = 0, errors = 0, calls = []\<rparr>)"
proof -
  let ?s0 = "\<lparr>updated = 0, skipped = 0, errors = 0, calls = []\<rparr>"
  let ?run = "\<lambda>g ns. main_loop a fid L g ns ?s0"
  have a: "errors (loop_body a fid L gh N s) = errors s + 1
      \<and> updated (loop_body a fid L gh N s) = updated s
      \<and> skipped (loop_body a fid L gh N s) = skipped s" for s
  proof -
    from assms(3) consider
      (fetch) e where "get_issue_labels gh N = Inl e"
    | (item) ls lab e where "get_issue_labels gh N = Inr ls"
        "find (\<lambda>label. map_of L label \<noteq> None) ls = Some lab" "lab \<noteq> []"
        "get_project_item_id gh N (PROJECT_NUMBER a) (OWNER a) (REPO a) = Inl e"
    | (update) ls lab item opt e where "get_issue_labels gh N = Inr ls"
        "find (\<lambda>label. map_of L label \<noteq> None) ls = Some lab" "lab \<noteq> []"
        "get_project_item_id gh N (PROJECT_NUMBER a) (OWNER a) (REPO a) = Inr (Some item)"
        "item \<noteq> []" "map_of L lab = Some (Some opt)" "opt \<noteq> []"
        "update_issue_status gh item (PROJECT_ID a) fid opt = Inl e"
      by blast
    then show ?thesis
    proof cases
      case fetch
      then show ?thesis by (simp add: loop_body_fetch_error)
    next
      case item
      then show ?thesis by (simp add: loop_body_item_error [where e = e])
    next
      case update
      then show ?thesis by (simp add: loop_body_update_error [where e = e])
    qed
  qed
  have split3: "[START_ISSUE a..END_ISSUE a] = [START_ISSUE a..N - 1] @ N # [N + 1..END_ISSUE a]"
    using assms(1,2) by (rule upto_split3)
  have split2: "[START_ISSUE a..END_ISSUE a] = [START_ISSUE a..N] @ [N + 1..END_ISSUE a]"
    using assms(1,2) by (rule upto_split2)
  have b: "?run gh [START_ISSUE a..END_ISSUE a] =
      main_loop a fid L gh [N + 1..END_ISSUE a]
        (loop_body a fid L gh N (?run gh [START_ISSUE a..N - 1]))"
    unfolding split3 by (simp add: main_loop_append)
  have c: "IssueViewLabels m \<in> set (calls (?run gh [START_ISSUE a..END_ISSUE a]))"
    if "N < m \<and> m \<le> END_ISSUE a" for m
  proof -
    from that assms(1) have "m \<in> set [START_ISSUE a..END_ISSUE a]" by simp
    then show ?thesis by (rule main_loop_attempts)
  qed
  have same: "?run gh' [N + 1..END_ISSUE a] = ?run gh [N + 1..END_ISSUE a]"
  proof (rule main_loop_agree, rule ballI)
    fix n assume "n \<in> set [N + 1..END_ISSUE a]"
    then have "N < n" by simp
    with assms(4) show "gh_issue_view_labels gh' n = gh_issue_view_labels gh n
      \<and> gh_project_items gh' (OWNER a) (REPO a) n = gh_project_items gh (OWNER a) (REPO a) n
      \<and> (\<forall>item opt. get_project_item_id gh n (PROJECT_NUMBER a) (OWNER a) (REPO a) = Inr (Some item)
           \<longrightarrow> gh_update_field gh' item (PROJECT_ID a) fid opt =
               gh_update_field gh item (PROJECT_ID a) fid opt)"
      by blast
  qed
  note lg = later_contribution [of a fid L gh "[START_ISSUE a..N]" "[N + 1..END_ISSUE a]" ?s0 ?s0]
  note lg' = later_contribution [of a fid L gh' "[START_ISSUE a..N]" "[N + 1..END_ISSUE a]" ?s0 ?s0]
  have d: "updated (?run gh [START_ISSUE a..END_ISSUE a]) - updated (?run gh [START_ISSUE a..N])
      = updated (?run gh' [START_ISSUE a..END_ISSUE a]) - updated (?run gh' [START_ISSUE a..N])"
    using lg lg' same unfolding split2 [symmetric] by simp
  have e: "skipped (?run gh [START_ISSUE a..END_ISSUE a]) - skipped (?run gh [START_ISSUE a..N])
      = skipped (?run gh' [START_ISSUE a..END_ISSUE a]) - skipped (?run gh' [START_ISSUE a..N])"
    using lg lg' same unfolding split2 [symmetric] by simp
  from a b c d e show ?thesis by blast
qed


lemma board_flaky_responses:
  "get_issue_labels board_flaky 2 = Inl (CalledProcessError ''HTTP 502'')"
  "2 < m \<Longrightarrow> gh_issue_view_labels board_example m = gh_issue_view_labels board_flaky m"
  "gh_project_items board_example = gh_project_items board_flaky"
  "gh_update_field board_example = gh_update_field board_flaky"
  by (simp_all add: board_flaky_def get_issue_labels_def)

theorem failure_is_isolated_witness:
  "START_ISSUE args_example \<le> 2 \<and> 2 \<le> END_ISSUE args_example
   \<and> get_issue_labels board_flaky 2 = Inl (CalledProcessError ''HTTP 502'')
   \<and> get_issue_labels board_example 2 = Inr [''status:done'']
   \<and> errors (loop_body args_example ''PVTSSF_1''
         (LABEL_TO_STATUS (option_map_of (field_options field_example) Map.empty)) board_flaky 2
         \<lparr>updated = 0, skipped = 0, errors = 0, calls = []\<rparr>) = 1
   \<and> IssueViewLabels 3 \<in> set (calls (main_loop args_example ''PVTSSF_1''
         (LABEL_TO_STATUS (option_map_of (field_options field_example) Map.empty)) board_flaky
         [START_ISSUE args_example..END_ISSUE args_example]
         \<lparr>updated = 0, skipped = 0, errors = 0, calls = []\<rparr>))
   \<and> IssueViewLabels 5 \<in> set (calls (main_loop args_example ''PVTSSF_1''
         (LABEL_TO_STATUS (option_map_of (field_options field_example) Map.empty)) board_flaky
         [START_ISSUE args_example..END_ISSUE args_example]
         \<lparr>updated = 0, skipped = 0, errors = 0, calls = []\<rparr>))
   \<and> updated (main_loop args_example ''PVTSSF_1''
         (LABEL_TO_STATUS (option_map_of (field_options field_example) Map.empty)) board_flaky
         [START_ISSUE args_example..END_ISSUE args_example]
         \<lparr>updated = 0, skipped = 0, errors = 0, calls = []\<rparr>)
       - updated (main_loop args_example ''PVTSSF_1''
         (LABEL_TO_STATUS (option_map_of (field_options field_example) Map.empty)) board_flaky
         [START_ISSUE args_example..2]
         \<lparr>updated = 0, skipped = 0, errors = 0, calls = []\<rparr>)
     = updated (main_loop args_example ''PVTSSF_1''
         (LABEL_TO_STATUS (option_map_of (field_options field_example) Map.empty)) board_example
         [START_ISSUE args_example..END_ISSUE args_example]
         \<lparr>updated = 0, skipped = 0, errors = 0, calls = []\<rparr>)
       - updated (main_loop args_example ''PVTSSF_1''
         (LABEL_TO_STATUS (option_map_of (field_options field_example) Map.empty)) board_example
         [START_ISSUE args_example..2]
         \<lparr>updated = 0, skipped = 0, errors = 0, calls = []\<rparr>)"
proof -
  let ?L = "LABEL_TO_STATUS (option_map_of (field_options field_example) Map.empty)"
  let ?s0 = "\<lparr>updated = 0, skipped = 0, errors = 0, calls = []\<rparr>"
  have h1: "START_ISSUE args_example \<le> 2" and h2: "2 \<le> END_ISSUE args_example"
    by (simp_all add: board_example_setup)
  have h3: "(\<exists>e. get_issue_labels board_flaky 2 = Inl e)
      \<or> (\<exists>ls lab e. get_issue_labels board_flaky 2 = Inr ls
            \<and> find (\<lambda>label. map_of ?L label \<noteq> None) ls = Some lab \<and> lab \<noteq> []
            \<and> get_project_item_id board_flaky 2 (PROJECT_NUMBER args_example)
                 (OWNER args_example) (REPO args_example) = Inl e)
      \<or> (\<exists>ls lab item opt e. get_issue_labels board_flaky 2 = Inr ls
            \<and> find (\<lambda>label. map_of ?L label \<noteq> None) ls = Some lab \<and> lab \<noteq> []
            \<and> get_project_item_id board_flaky 2 (PROJECT_NUMBER args_example)
                 (OWNER args_example) (REPO args_example) = Inr (Some item)
            \<and> item \<noteq> [] \<and> map_of ?L lab = Some (Some opt) \<and> opt \<noteq> []
            \<and> update_issue_status board_flaky item (PROJECT_ID args_example) ''PVTSSF_1'' opt = Inl e)"
    using board_flaky_responses(1) by blast
  have h4: "\<forall>m. 2 < m \<longrightarrow>
          gh_issue_view_labels board_example m = gh_issue_view_labels board_flaky m
          \<and> gh_project_items board_example (OWNER args_example) (REPO args_example) m =
              gh_project_items board_flaky (OWNER args_example) (REPO args_example) m
          \<and> (\<forall>item opt.
                get_project_item_id board_flaky m (PROJECT_NUMBER args_example)
                  (OWNER args_example) (REPO args_example) = Inr (Some item)
                \<longrightarrow> gh_update_field board_example item (PROJECT_ID args_example) ''PVTSSF_1'' opt =
                    gh_update_field board_flaky item (PROJECT_ID args_example) ''PVTSSF_1'' opt)"
    by (simp add: board_flaky_responses)
  note t = failure_is_isolated [OF h1 h2 h3 h4]
  from t have a: "errors (loop_body args_example ''PVTSSF_1'' ?L board_flaky 2 ?s0) = errors ?s0 + 1"
    by blast
  then have a': "errors (loop_body args_example ''PVTSSF_1'' ?L board_flaky 2 ?s0) = 1"
    by simp
  from t have c: "\<forall>m. 2 < m \<and> m \<le> END_ISSUE args_example \<longrightarrow>
      IssueViewLabels m \<in> set (calls (main_loop args_example ''PVTSSF_1'' ?L board_flaky
         [START_ISSUE args_example..END_ISSUE args_example] ?s0))"
    by blast
  have c3: "IssueViewLabels 3 \<in> set (calls (main_loop args_example ''PVTSSF_1'' ?L board_flaky
         [START_ISSUE args_example..END_ISSUE args_example] ?s0))"
    using c [rule_format, of 3] by (simp add: board_example_setup)
  have c5: "IssueViewLabels 5 \<in> set (calls (main_loop args_example ''PVTSSF_1'' ?L board_flaky
         [START_ISSUE args_example..END_ISSUE args_example] ?s0))"
    using c [rule_format, of 5] by (simp add: board_example_setup)
  from t have d: "updated (main_loop args_example ''PVTSSF_1'' ?L board_flaky
         [START_ISSUE args_example..END_ISSUE args_example] ?s0)
       - updated (main_loop args_example ''PVTSSF_1'' ?L board_flaky
         [START_ISSUE args_example..2] ?s0)
     = updated (main_loop args_example ''PVTSSF_1'' ?L board_example
         [START_ISSUE args_example..END_ISSUE args_example] ?s0)
       - updated (main_loop args_example ''PVTSSF_1'' ?L board_example
         [START_ISSUE args_example..2] ?s0)"
    by blast
  from h1 h2 board_flaky_responses(1) board_example_labels(2) a' c3 c5 d
  show ?thesis by blast
qed


end
